theory Spec2Isabelle
  imports Main
begin

section \<open>Paths\<close>

text \<open>
  Paths are Python \<open>str\<close> values. The three purely textual functions of \<open>os.path\<close> that
  \<open>on_paste\<close> uses are written out in their POSIX flavour (\<open>posixpath.basename\<close>,
  \<open>posixpath.join\<close> for two arguments, \<open>genericpath._splitext\<close> with separator \<open>/\<close>
  and extension separator \<open>.\<close>). Everything that looks at the machine (\<open>os.stat\<close>, the
  current directory behind \<open>os.path.abspath\<close>, \<open>shutil\<close>, Qt) is a parameter, see
  \<open>platform\<close> below.
\<close>

type_synonym path = string

definition basename :: "path \<Rightarrow> string" where
  \<comment> \<open>\<open>i = p.rfind('/') + 1; return p[i:]\<close>\<close>
  "basename p = rev (takeWhile (\<lambda>c. c \<noteq> CHR ''/'') (rev p))"

definition join :: "path \<Rightarrow> path \<Rightarrow> path" where
  \<comment> \<open>\<open>if b.startswith('/'): b; elif not a or a.endswith('/'): a + b; else: a + '/' + b\<close>\<close>
  "join a b =
     (if take 1 b = ''/'' then b
      else if a = [] \<or> last a = CHR ''/'' then a @ b
      else a @ ''/'' @ b)"

definition rfind :: "char \<Rightarrow> string \<Rightarrow> int" where
  \<comment> \<open>\<open>p.rfind(c)\<close>: the highest index of \<open>c\<close>, or \<open>-1\<close>\<close>
  "rfind c p =
     (if c \<in> set p
      then int (length p) - 1 - int (length (takeWhile (\<lambda>x. x \<noteq> c) (rev p)))
      else - 1)"

definition splitext :: "path \<Rightarrow> string \<times> string" where
  \<comment> \<open>the extension starts at the last dot, unless that dot comes before the last
      separator or only dots stand between the separator and it\<close>
  "splitext p =
     (let sepIndex = rfind (CHR ''/'') p;
          dotIndex = rfind (CHR ''.'') p
      in if dotIndex > sepIndex \<and>
            list_ex (\<lambda>c. c \<noteq> CHR ''.'')
              (take (nat (dotIndex - (sepIndex + 1))) (drop (nat (sepIndex + 1)) p))
         then (take (nat dotIndex) p, drop (nat dotIndex) p)
         else (p, []))"

section \<open>The platform and the session\<close>

datatype kind = RegularFile | Directory

datatype url = LocalFile path | OtherUrl string

text \<open>
  The effectful primitives work on a filesystem of type \<open>'fs\<close>. One that raises returns
  \<open>Inl (message, filesystem)\<close>: the text \<open>str(e)\<close> of the exception and the filesystem as
  the failed call left it, which need not be the one it started from.
\<close>

type_synonym 'fs effect = "'fs \<Rightarrow> (string \<times> 'fs) + 'fs"

record ('fs, 'i) platform =
  os_stat :: "'fs \<Rightarrow> path \<Rightarrow> kind option"        \<comment> \<open>\<open>None\<close>: \<open>os.stat\<close> fails\<close>
  os_abspath :: "path \<Rightarrow> path"                     \<comment> \<open>\<open>os.path.abspath\<close>\<close>
  pathlib_str :: "path \<Rightarrow> path"                    \<comment> \<open>\<open>str(Path(p))\<close>\<close>
  pathlib_parent :: "path \<Rightarrow> path"                 \<comment> \<open>\<open>str(Path(p).parent)\<close>\<close>
  shutil_copytree :: "path \<Rightarrow> path \<Rightarrow> 'fs effect"
  shutil_copy2 :: "path \<Rightarrow> path \<Rightarrow> 'fs effect"
  shutil_move :: "path \<Rightarrow> path \<Rightarrow> 'fs effect"
  shutil_rmtree :: "path \<Rightarrow> 'fs effect"
  os_remove :: "path \<Rightarrow> 'fs effect"
  qt_index_valid :: "'fs \<Rightarrow> path \<Rightarrow> bool"          \<comment> \<open>\<open>model.index(path).isValid()\<close>\<close>
  qt_file_path :: "'i \<Rightarrow> path"                     \<comment> \<open>\<open>model.filePath(idx)\<close>\<close>

definition path_exists :: "('fs, 'i) platform \<Rightarrow> 'fs \<Rightarrow> path \<Rightarrow> bool" where
  \<comment> \<open>\<open>os.path.exists\<close>\<close>
  "path_exists api f p = (os_stat api f p \<noteq> None)"

definition path_isdir :: "('fs, 'i) platform \<Rightarrow> 'fs \<Rightarrow> path \<Rightarrow> bool" where
  \<comment> \<open>\<open>os.path.isdir\<close>\<close>
  "path_isdir api f p = (os_stat api f p = Some Directory)"

datatype fs_call =
    Copytree path path
  | Copy2 path path
  | Move path path
  | Rmtree path
  | Remove path

datatype view = ListMode | IconMode

datatype status_text =
    Blank                          \<comment> \<open>the initial label\<close>
  | Shows_path path                \<comment> \<open>the current path\<close>
  | Placed_in_clipboard bool       \<comment> \<open>"Placed items in clipboard (cut)" / "(copy)"\<close>
  | Copied nat                     \<comment> \<open>"Copied n items"\<close>
  | Pasted_from_system nat         \<comment> \<open>"Pasted n item(s) from system clipboard"\<close>
  | Paste_partially nat nat        \<comment> \<open>"Paste partially completed (n item(s), m failed)"\<close>
  | Cut_paste_completed nat        \<comment> \<open>"Cut/Paste completed (n item(s))"\<close>
  | Paste_completed nat            \<comment> \<open>"Paste completed (n item(s))"\<close>
  | Deleted nat                    \<comment> \<open>"Deleted n items"\<close>

datatype dialog =
    Path_not_found path            \<comment> \<open>warning\<close>
  | Invalid_path path              \<comment> \<open>warning\<close>
  | No_selection_to_copy           \<comment> \<open>information\<close>
  | No_selection_to_delete         \<comment> \<open>information\<close>
  | Invalid_Target                 \<comment> \<open>warning "Current location is not a directory."\<close>
  | Paste_into_itself string       \<comment> \<open>warning "Cannot paste 'base' into itself."\<close>
  | Paste_Error string             \<comment> \<open>warning with \<open>str(e)\<close>\<close>
  | Clipboard_is_empty             \<comment> \<open>information "Nothing to paste."\<close>
  | Cut_Paste_Error string string  \<comment> \<open>warning "Failed to move 'base': error"\<close>
  | Delete_question nat            \<comment> \<open>question "Delete n items? ..."\<close>
  | Delete_error string            \<comment> \<open>warning with \<open>str(e)\<close>\<close>

text \<open>
  The attributes of \<open>CustomPopup\<close>, followed by what the widget acts on: the filesystem,
  the operating system's clipboard (the URLs of its mime data; no mime data and no URLs
  are the same empty list to the test \<open>md and md.hasUrls()\<close>), the indexes selected in the
  list view, and three logs: the message boxes shown, the mutating filesystem primitives
  called, and the files handed to the desktop for opening. Of the widgets the record keeps
  what a handler reads back or what tells one outcome from another (the address text, the
  view mode, the roots of the views, the status label); button labels, tooltips, window
  geometry and painting are left out.
\<close>

record ('fs, 'i) session =
  clipboard_paths :: "path list"
  clipboard_is_cut :: bool
  current_path :: path
  address :: string
  history :: "path list"
  history_index :: int
  status :: status_text
  view_mode :: view
  model_root :: path
  list_root :: path
  tree_current :: "path option"
  closed :: bool
  minimized :: bool
  fs :: 'fs
  sys_clipboard :: "url list"
  selection :: "'i list"
  dialogs :: "dialog list"
  fs_calls :: "fs_call list"
  opened :: "path list"

definition message_box :: "dialog \<Rightarrow> ('fs, 'i) session \<Rightarrow> ('fs, 'i) session" where
  "message_box d s = s\<lparr>dialogs := dialogs s @ [d]\<rparr>"

definition initial :: "path \<Rightarrow> 'fs \<Rightarrow> url list \<Rightarrow> ('fs, 'i) session" where
  \<comment> \<open>\<open>__init__\<close> and \<open>_build_ui\<close>; \<open>home\<close> is \<open>str(Path.home())\<close>\<close>
  "initial home f cb =
     \<lparr> clipboard_paths = [], clipboard_is_cut = False,
       current_path = home, address = home,
       history = [home], history_index = 0,
       status = Blank, view_mode = ListMode,
       model_root = home, list_root = home, tree_current = None,
       closed = False, minimized = False,
       fs = f, sys_clipboard = cb, selection = [],
       dialogs = [], fs_calls = [], opened = [] \<rparr>"

section \<open>Navigation\<close>

definition py_index :: "'a list \<Rightarrow> int \<Rightarrow> 'a option" where
  \<comment> \<open>\<open>xs[i]\<close>; \<open>None\<close> is IndexError\<close>
  "py_index xs i =
     (if 0 \<le> i \<and> i < int (length xs) then Some (xs ! nat i)
      else if i < 0 \<and> - int (length xs) \<le> i then Some (xs ! nat (int (length xs) + i))
      else None)"

definition py_prefix :: "'a list \<Rightarrow> int \<Rightarrow> 'a list" where
  \<comment> \<open>\<open>xs[:i]\<close>\<close>
  "py_prefix xs i = (if i < 0 then take (nat (int (length xs) + i)) xs else take (nat i) xs)"

definition go_to_path :: "('fs, 'i) platform \<Rightarrow> path \<Rightarrow> ('fs, 'i) session \<Rightarrow> ('fs, 'i) session" where
  "go_to_path api p s =
     (if \<not> path_exists api (fs s) p then message_box (Path_not_found p) s
      else if \<not> qt_index_valid api (fs s) p then message_box (Invalid_path p) s
      else
        let cur = os_abspath api p;
            s1 = s\<lparr>current_path := cur, address := cur, list_root := p, tree_current := Some p\<rparr>
        in if history_index s1 = - 1 then
             (let h = py_prefix (history s1) (history_index s1 + 1) @ [cur]
              in s1\<lparr>history := h, history_index := int (length h) - 1, status := Shows_path cur\<rparr>)
           else
             (case py_index (history s1) (history_index s1) of
                None \<Rightarrow> s1 \<comment> \<open>IndexError leaves the slot here\<close>
              | Some h0 \<Rightarrow>
                  if h0 \<noteq> cur then
                    (let h = py_prefix (history s1) (history_index s1 + 1) @ [cur]
                     in s1\<lparr>history := h, history_index := int (length h) - 1,
                            status := Shows_path cur\<rparr>)
                  else s1\<lparr>status := Shows_path cur\<rparr>))"

definition on_back :: "('fs, 'i) platform \<Rightarrow> ('fs, 'i) session \<Rightarrow> ('fs, 'i) session" where
  "on_back api s =
     (if history_index s > 0 then
        (let s1 = s\<lparr>history_index := history_index s - 1\<rparr>
         in case py_index (history s1) (history_index s1) of
              None \<Rightarrow> s1
            | Some p \<Rightarrow> go_to_path api p s1)
      else s)"

definition on_up :: "('fs, 'i) platform \<Rightarrow> ('fs, 'i) session \<Rightarrow> ('fs, 'i) session" where
  "on_up api s =
     (if pathlib_parent api (current_path s) \<noteq> pathlib_str api (current_path s)
      then go_to_path api (pathlib_parent api (current_path s)) s
      else s)"

definition py_isspace :: "char \<Rightarrow> bool" where
  \<comment> \<open>\<open>str.isspace\<close> on the code points below 256, which are the characters of the
      model's strings\<close>
  "py_isspace c = (of_char c \<in> {9, 10, 11, 12, 13, 28, 29, 30, 31, 32, 133, 160 :: nat})"

definition py_strip :: "string \<Rightarrow> string" where
  \<comment> \<open>\<open>s.strip()\<close>\<close>
  "py_strip s = rev (dropWhile py_isspace (rev (dropWhile py_isspace s)))"

definition on_address_enter :: "('fs, 'i) platform \<Rightarrow> string \<Rightarrow> ('fs, 'i) session \<Rightarrow> ('fs, 'i) session" where
  \<comment> \<open>\<open>typed\<close> is the text the user left in the editable address bar\<close>
  "on_address_enter api typed s =
     (let s0 = s\<lparr>address := typed\<rparr>; p = py_strip typed
      in if p \<noteq> [] then go_to_path api p s0 else s0)"

definition on_tree_clicked :: "('fs, 'i) platform \<Rightarrow> 'i \<Rightarrow> ('fs, 'i) session \<Rightarrow> ('fs, 'i) session" where
  "on_tree_clicked api idx s = go_to_path api (qt_file_path api idx) s"

definition on_item_double_clicked :: "('fs, 'i) platform \<Rightarrow> 'i \<Rightarrow> ('fs, 'i) session \<Rightarrow> ('fs, 'i) session" where
  "on_item_double_clicked api idx s =
     (let p = qt_file_path api idx
      in if path_isdir api (fs s) p then go_to_path api p s
         else s\<lparr>opened := opened s @ [p]\<rparr>)"

definition toggle_view :: "('fs, 'i) session \<Rightarrow> ('fs, 'i) session" where
  "toggle_view s =
     (if view_mode s = ListMode then s\<lparr>view_mode := IconMode\<rparr> else s\<lparr>view_mode := ListMode\<rparr>)"

section \<open>Selection and copy\<close>

fun selected_paths_loop :: "('i \<Rightarrow> path) \<Rightarrow> 'i list \<Rightarrow> path list \<Rightarrow> path set \<Rightarrow> path list" where
  "selected_paths_loop fp [] paths seen = paths"
| "selected_paths_loop fp (idx # rest) paths seen =
     (let p = fp idx
      in if p \<notin> seen then selected_paths_loop fp rest (paths @ [p]) (insert p seen)
         else selected_paths_loop fp rest paths seen)"

definition selected_paths :: "('fs, 'i) platform \<Rightarrow> ('fs, 'i) session \<Rightarrow> path list" where
  "selected_paths api s = selected_paths_loop (qt_file_path api) (selection s) [] {}"

definition place_paths_in_system_clipboard ::
  "path list \<Rightarrow> bool \<Rightarrow> ('fs, 'i) session \<Rightarrow> ('fs, 'i) session" where
  "place_paths_in_system_clipboard paths as_cut s =
     s\<lparr>sys_clipboard := map LocalFile paths, status := Placed_in_clipboard as_cut\<rparr>"

definition on_copy :: "('fs, 'i) platform \<Rightarrow> ('fs, 'i) session \<Rightarrow> ('fs, 'i) session" where
  "on_copy api s =
     (let paths = selected_paths api s
      in if paths = [] then message_box No_selection_to_copy s
         else
           (place_paths_in_system_clipboard paths False
              (s\<lparr>clipboard_paths := paths, clipboard_is_cut := False\<rparr>))
           \<lparr>status := Copied (length paths)\<rparr>)"

section \<open>Paste\<close>

definition invoke :: "fs_call \<Rightarrow> 'fs effect \<Rightarrow> ('fs, 'i) session \<Rightarrow> (string \<times> ('fs, 'i) session) + ('fs, 'i) session" where
  \<comment> \<open>one call of a mutating primitive: it is logged, and the filesystem is the one the
      call leaves, whether it returns or raises\<close>
  "invoke c prim s =
     (case prim (fs s) of
        Inl (e, f) \<Rightarrow> Inl (e, s\<lparr>fs := f, fs_calls := fs_calls s @ [c]\<rparr>)
      | Inr f \<Rightarrow> Inr (s\<lparr>fs := f, fs_calls := fs_calls s @ [c]\<rparr>))"

definition resolve_dest :: "('fs, 'i) platform \<Rightarrow> path \<Rightarrow> string \<Rightarrow> ('fs, 'i) session \<Rightarrow> path" where
  \<comment> \<open>\<open>dest = join(dest_dir, base)\<close>, then the name-conflict \<open>if\<close> (the same lines in both
      loops of \<open>on_paste\<close>)\<close>
  "resolve_dest api dest_dir base s =
     (let dest = join dest_dir base
      in if path_exists api (fs s) dest
         then (case splitext base of (base_name, ext) \<Rightarrow> join dest_dir (base_name @ ''_copy'' @ ext))
         else dest)"

definition copy_item :: "('fs, 'i) platform \<Rightarrow> path \<Rightarrow> path \<Rightarrow> ('fs, 'i) session \<Rightarrow> (string \<times> ('fs, 'i) session) + ('fs, 'i) session" where
  \<comment> \<open>\<open>if os.path.isdir(src): shutil.copytree(src, dest) else: shutil.copy2(src, dest)\<close>\<close>
  "copy_item api src dest s =
     (if path_isdir api (fs s) src
      then invoke (Copytree src dest) (shutil_copytree api src dest) s
      else invoke (Copy2 src dest) (shutil_copy2 api src dest) s)"

definition paste_system_entry :: "('fs, 'i) platform \<Rightarrow> path \<Rightarrow> path \<Rightarrow> ('fs, 'i) session \<Rightarrow> ('fs, 'i) session" where
  \<comment> \<open>the body of the loop over the system clipboard's local files\<close>
  "paste_system_entry api dest_dir src s =
     (if \<not> path_exists api (fs s) src then s
      else
        let base = basename src
        in if os_abspath api src = os_abspath api dest_dir
           then message_box (Paste_into_itself base) s
           else
             (case copy_item api src (resolve_dest api dest_dir base s) s of
                Inr s1 \<Rightarrow> s1
              | Inl (e, s1) \<Rightarrow> message_box (Paste_Error e) s1))"

fun paste_system_loop :: "('fs, 'i) platform \<Rightarrow> path \<Rightarrow> path list \<Rightarrow> ('fs, 'i) session \<Rightarrow> ('fs, 'i) session" where
  "paste_system_loop api dest_dir [] s = s"
| "paste_system_loop api dest_dir (src # rest) s =
     paste_system_loop api dest_dir rest (paste_system_entry api dest_dir src s)"

definition copy_then_delete :: "('fs, 'i) platform \<Rightarrow> path \<Rightarrow> path \<Rightarrow> ('fs, 'i) session \<Rightarrow> (string \<times> ('fs, 'i) session) + ('fs, 'i) session" where
  \<comment> \<open>the fallback of a failed move: the body of the inner \<open>try\<close>\<close>
  "copy_then_delete api src dest s =
     (if path_isdir api (fs s) src then
        (case invoke (Copytree src dest) (shutil_copytree api src dest) s of
           Inl x \<Rightarrow> Inl x
         | Inr s1 \<Rightarrow> invoke (Rmtree src) (shutil_rmtree api src) s1)
      else
        (case invoke (Copy2 src dest) (shutil_copy2 api src dest) s of
           Inl x \<Rightarrow> Inl x
         | Inr s1 \<Rightarrow> invoke (Remove src) (os_remove api src) s1))"

text \<open>
  The loop over the internal clipboard carries the session and the two locals
  \<open>pasted_count\<close> and \<open>failed_paths\<close>.
\<close>

type_synonym ('fs, 'i) paste_acc = "('fs, 'i) session \<times> nat \<times> (path \<times> string) list"

definition paste_clipboard_entry ::
  "('fs, 'i) platform \<Rightarrow> path \<Rightarrow> bool \<Rightarrow> path \<Rightarrow> ('fs, 'i) paste_acc \<Rightarrow> ('fs, 'i) paste_acc" where
  "paste_clipboard_entry api dest_dir is_cut src acc =
     (case acc of (s, pasted_count, failed_paths) \<Rightarrow>
        if \<not> path_exists api (fs s) src then acc
        else
          let base = basename src
          in if os_abspath api src = os_abspath api dest_dir
             then (message_box (Paste_into_itself base) s, pasted_count, failed_paths)
             else
               let dest = resolve_dest api dest_dir base s
               in if is_cut then
                    (case invoke (Move src dest) (shutil_move api src dest) s of
                       Inr s1 \<Rightarrow> (s1, pasted_count + 1, failed_paths)
                     | Inl (move_error, s1) \<Rightarrow>
                         (case copy_then_delete api src dest s1 of
                            Inr s2 \<Rightarrow> (s2, pasted_count + 1, failed_paths)
                          | Inl (fallback_error, s2) \<Rightarrow>
                              (message_box (Cut_Paste_Error base fallback_error) s2,
                               pasted_count,
                               failed_paths @ [(src, fallback_error)])))
                  else
                    (case copy_item api src dest s of
                       Inr s1 \<Rightarrow> (s1, pasted_count + 1, failed_paths)
                     | Inl (e, s1) \<Rightarrow>
                         (message_box (Paste_Error e) s1, pasted_count, failed_paths @ [(src, e)])))"

fun paste_clipboard_loop ::
  "('fs, 'i) platform \<Rightarrow> path \<Rightarrow> bool \<Rightarrow> path list \<Rightarrow> ('fs, 'i) paste_acc \<Rightarrow> ('fs, 'i) paste_acc" where
  "paste_clipboard_loop api dest_dir is_cut [] acc = acc"
| "paste_clipboard_loop api dest_dir is_cut (src # rest) acc =
     paste_clipboard_loop api dest_dir is_cut rest (paste_clipboard_entry api dest_dir is_cut src acc)"

definition local_files :: "url list \<Rightarrow> path list" where
  \<comment> \<open>\<open>[u.toLocalFile() for u in urls if u.isLocalFile()]\<close>\<close>
  "local_files urls = concat (map (\<lambda>u. case u of LocalFile p \<Rightarrow> [p] | OtherUrl _ \<Rightarrow> []) urls)"

definition settle_clipboard ::
  "path list \<Rightarrow> bool \<Rightarrow> ('fs, 'i) paste_acc \<Rightarrow> ('fs, 'i) session" where
  \<comment> \<open>the lines after the loop, under the comment "Only clear clipboard for successful
      cut operations"\<close>
  "settle_clipboard clipboard_paths0 is_cut acc =
     (case acc of (s, pasted_count, failed_paths) \<Rightarrow>
        if is_cut then
          (if failed_paths \<noteq> [] then
             (let successful_paths =
                    filter (\<lambda>p. p \<notin> set (map fst failed_paths)) clipboard_paths0
              in s\<lparr>clipboard_paths := successful_paths,
                    status := Paste_partially pasted_count (length failed_paths)\<rparr>)
           else s\<lparr>clipboard_paths := [], clipboard_is_cut := False,
                   status := Cut_paste_completed pasted_count\<rparr>)
        else s\<lparr>status := Paste_completed pasted_count\<rparr>)"

definition on_paste :: "('fs, 'i) platform \<Rightarrow> ('fs, 'i) session \<Rightarrow> ('fs, 'i) session" where
  "on_paste api s =
     (let dest_dir = current_path s
      in if \<not> path_isdir api (fs s) dest_dir then message_box Invalid_Target s
         else if sys_clipboard s \<noteq> [] then
           (let paths = local_files (sys_clipboard s)
            in (paste_system_loop api dest_dir paths s)
               \<lparr>status := Pasted_from_system (length paths),
                model_root := dest_dir, list_root := dest_dir\<rparr>)
         else if clipboard_paths s = [] then message_box Clipboard_is_empty s
         else
           (settle_clipboard (clipboard_paths s) (clipboard_is_cut s)
              (paste_clipboard_loop api dest_dir (clipboard_is_cut s) (clipboard_paths s) (s, 0, [])))
           \<lparr>model_root := dest_dir, list_root := dest_dir\<rparr>)"

section \<open>Delete\<close>

definition delete_entry :: "('fs, 'i) platform \<Rightarrow> path \<Rightarrow> ('fs, 'i) session \<Rightarrow> ('fs, 'i) session" where
  "delete_entry api p s =
     (case (if path_isdir api (fs s) p
            then invoke (Rmtree p) (shutil_rmtree api p) s
            else invoke (Remove p) (os_remove api p) s) of
        Inr s1 \<Rightarrow> s1
      | Inl (e, s1) \<Rightarrow> message_box (Delete_error e) s1)"

fun delete_loop :: "('fs, 'i) platform \<Rightarrow> path list \<Rightarrow> ('fs, 'i) session \<Rightarrow> ('fs, 'i) session" where
  "delete_loop api [] s = s"
| "delete_loop api (p # rest) s = delete_loop api rest (delete_entry api p s)"

definition on_delete :: "('fs, 'i) platform \<Rightarrow> bool \<Rightarrow> ('fs, 'i) session \<Rightarrow> ('fs, 'i) session" where
  \<comment> \<open>\<open>yes\<close>: the answer to the question box is \<open>QMessageBox.StandardButton.Yes\<close>\<close>
  "on_delete api yes s =
     (let paths = selected_paths api s
      in if paths = [] then message_box No_selection_to_delete s
         else
           let s1 = message_box (Delete_question (length paths)) s
           in if \<not> yes then s1
              else (delete_loop api paths s1)\<lparr>status := Deleted (length paths)\<rparr>)"

section \<open>Events\<close>

datatype key = Key_Escape | Key_Copy | Key_Paste | Key_Other

definition keyPressEvent :: "('fs, 'i) platform \<Rightarrow> key \<Rightarrow> ('fs, 'i) session \<Rightarrow> ('fs, 'i) session" where
  "keyPressEvent api k s =
     (case k of
        Key_Escape \<Rightarrow> s\<lparr>closed := True\<rparr>
      | Key_Copy \<Rightarrow> on_copy api s
      | Key_Paste \<Rightarrow> on_paste api s
      | Key_Other \<Rightarrow> s)"

text \<open>
  Everything the window reacts to: the slots connected in \<open>_build_ui\<close> and in the title
  bar, and the key handler. There is no slot for a cut: \<open>buttons_info\<close> lists a tooltip for
  one, and no button is built from it.
\<close>

datatype 'i event =
    Back_clicked
  | Up_clicked
  | Address_entered string
  | View_toggled
  | Copy_clicked
  | Delete_clicked bool
  | Paste_clicked
  | Tree_clicked 'i
  | Item_double_clicked 'i
  | Key_pressed key
  | Minimize_clicked
  | Close_clicked

definition handle :: "('fs, 'i) platform \<Rightarrow> 'i event \<Rightarrow> ('fs, 'i) session \<Rightarrow> ('fs, 'i) session" where
  "handle api ev s =
     (case ev of
        Back_clicked \<Rightarrow> on_back api s
      | Up_clicked \<Rightarrow> on_up api s
      | Address_entered typed \<Rightarrow> on_address_enter api typed s
      | View_toggled \<Rightarrow> toggle_view s
      | Copy_clicked \<Rightarrow> on_copy api s
      | Delete_clicked yes \<Rightarrow> on_delete api yes s
      | Paste_clicked \<Rightarrow> on_paste api s
      | Tree_clicked idx \<Rightarrow> on_tree_clicked api idx s
      | Item_double_clicked idx \<Rightarrow> on_item_double_clicked api idx s
      | Key_pressed k \<Rightarrow> keyPressEvent api k s
      | Minimize_clicked \<Rightarrow> s\<lparr>minimized := True\<rparr>
      | Close_clicked \<Rightarrow> s\<lparr>closed := True\<rparr>)"

text \<open>
  The sessions a run can be in: the window starts from \<open>initial\<close>, handles events, and
  between two events the world may change under it (other processes write the filesystem
  and the system clipboard, the user changes the selection).
\<close>

inductive reachable :: "('fs, 'i) platform \<Rightarrow> ('fs, 'i) session \<Rightarrow> bool"
  for api :: "('fs, 'i) platform" where
  start: "reachable api (initial home f cb)"
| event: "reachable api s \<Longrightarrow> reachable api (handle api ev s)"
| world: "reachable api s \<Longrightarrow> reachable api (s\<lparr>fs := f, sys_clipboard := cb, selection := sel\<rparr>)"

section \<open>Vocabulary of the properties\<close>

fun first_seen :: "'a list \<Rightarrow> 'a list" where
  \<comment> \<open>deduplicated, preserving first-seen order\<close>
  "first_seen [] = []"
| "first_seen (x # xs) = x # first_seen (filter (\<lambda>y. y \<noteq> x) xs)"

fun is_copy_call :: "fs_call \<Rightarrow> bool" where
  "is_copy_call (Copytree _ _) = True"
| "is_copy_call (Copy2 _ _) = True"
| "is_copy_call _ = False"

fun is_move_call :: "fs_call \<Rightarrow> bool" where
  "is_move_call (Move _ _) = True"
| "is_move_call _ = False"

fun is_delete_call :: "fs_call \<Rightarrow> bool" where
  "is_delete_call (Rmtree _) = True"
| "is_delete_call (Remove _) = True"
| "is_delete_call _ = False"

fun call_path :: "fs_call \<Rightarrow> path" where
  \<comment> \<open>the path a call reads or removes: its first argument\<close>
  "call_path (Copytree a _) = a"
| "call_path (Copy2 a _) = a"
| "call_path (Move a _) = a"
| "call_path (Rmtree a) = a"
| "call_path (Remove a) = a"

definition is_absolute :: "path \<Rightarrow> bool" where
  \<comment> \<open>\<open>posixpath.isabs\<close>\<close>
  "is_absolute p = (take 1 p = ''/'')"

definition new_calls :: "('fs, 'i) session \<Rightarrow> ('fs, 'i) session \<Rightarrow> fs_call list" where
  \<comment> \<open>the calls logged between an earlier session and a later one\<close>
  "new_calls s s' = drop (length (fs_calls s)) (fs_calls s')"

section \<open>An in-memory filesystem\<close>

text \<open>
  A small filesystem to run the handlers on: an association list from absolute paths to
  nodes, in the order in which a scan of a directory meets them, and a list of locked
  files, which cannot be unlinked or renamed (as a file held open by another program).
  Its primitives follow the documented behaviour of their namesakes in the cases the
  examples below use.
\<close>

datatype node = File string | Dir

record memfs =
  nodes :: "(path \<times> node) list"
  locked :: "path list"

definition mem_stat :: "memfs \<Rightarrow> path \<Rightarrow> kind option" where
  "mem_stat m p =
     (case map_of (nodes m) p of
        None \<Rightarrow> None
      | Some (File _) \<Rightarrow> Some RegularFile
      | Some Dir \<Rightarrow> Some Directory)"

definition under :: "path \<Rightarrow> path \<Rightarrow> bool" where
  \<comment> \<open>\<open>q\<close> is \<open>d\<close> or lies below it\<close>
  "under d q = (q = d \<or> take (length d + 1) q = d @ ''/'')"

definition mem_put :: "path \<Rightarrow> node \<Rightarrow> memfs \<Rightarrow> memfs" where
  "mem_put p n m = m\<lparr>nodes := (p, n) # filter (\<lambda>(q, _). q \<noteq> p) (nodes m)\<rparr>"

definition mem_copy2 :: "path \<Rightarrow> path \<Rightarrow> memfs effect" where
  "mem_copy2 src dst m =
     (case map_of (nodes m) src of
        None \<Rightarrow> Inl (''No such file or directory'', m)
      | Some Dir \<Rightarrow> Inl (''Is a directory'', m)
      | Some (File c) \<Rightarrow>
          Inr (mem_put (if mem_stat m dst = Some Directory then join dst (basename src) else dst)
                 (File c) m))"

definition mem_copytree :: "path \<Rightarrow> path \<Rightarrow> memfs effect" where
  "mem_copytree src dst m =
     (if mem_stat m src \<noteq> Some Directory then Inl (''Not a directory'', m)
      else if mem_stat m dst \<noteq> None then Inl (''File exists'', m)
      else Inr (m\<lparr>nodes := nodes m @
                  map (\<lambda>(q, n). (dst @ drop (length src) q, n))
                    (filter (\<lambda>(q, _). under src q) (nodes m))\<rparr>))"

definition mem_rmtree :: "path \<Rightarrow> memfs effect" where
  \<comment> \<open>as \<open>shutil.rmtree\<close> without an error handler: the entries below \<open>p\<close> are met in the
      order of the list; the first locked one raises, and what was met before it is gone
      (a directory only when everything below it was met)\<close>
  "mem_rmtree p m =
     (if mem_stat m p \<noteq> Some Directory then Inl (''Not a directory'', m)
      else
        let below = filter (under p) (map fst (nodes m));
            met = takeWhile (\<lambda>q. q \<notin> set (locked m)) below
        in if length met = length below
           then Inr (m\<lparr>nodes := filter (\<lambda>(q, _). \<not> under p q) (nodes m)\<rparr>)
           else Inl (''Permission denied'',
                  m\<lparr>nodes :=
                      filter (\<lambda>(q, n). \<not> (q \<in> set met \<and>
                                (n \<noteq> Dir \<or> list_all (\<lambda>r. r \<in> set met) (filter (under q) below))))
                        (nodes m)\<rparr>))"

definition mem_remove :: "path \<Rightarrow> memfs effect" where
  "mem_remove p m =
     (case map_of (nodes m) p of
        None \<Rightarrow> Inl (''No such file or directory'', m)
      | Some Dir \<Rightarrow> Inl (''Is a directory'', m)
      | Some (File _) \<Rightarrow>
          if p \<in> set (locked m) then Inl (''Permission denied'', m)
          else Inr (m\<lparr>nodes := filter (\<lambda>(q, _). q \<noteq> p) (nodes m)\<rparr>))"

definition mem_move :: "path \<Rightarrow> path \<Rightarrow> memfs effect" where
  \<comment> \<open>as \<open>shutil.move\<close>: into \<open>dst\<close> when that is a directory; a rename when nothing
      below \<open>src\<close> is locked, and otherwise a copy followed by the removal of \<open>src\<close>\<close>
  "mem_move src dst m =
     (if mem_stat m src = None then Inl (''No such file or directory'', m)
      else
        let into = (mem_stat m dst = Some Directory);
            real_dst = (if into then join dst (basename src) else dst)
        in if into \<and> mem_stat m real_dst \<noteq> None then Inl (''Destination path already exists'', m)
           else if \<not> list_ex (under src) (locked m) then
             Inr (m\<lparr>nodes :=
                  map (\<lambda>(q, n). if under src q then (real_dst @ drop (length src) q, n) else (q, n))
                    (filter (\<lambda>(q, _). q \<noteq> real_dst) (nodes m))\<rparr>)
           else if mem_stat m src = Some Directory then
             (case mem_copytree src real_dst m of
                Inl x \<Rightarrow> Inl x
              | Inr m1 \<Rightarrow> mem_rmtree src m1)
           else
             (case mem_copy2 src real_dst m of
                Inl x \<Rightarrow> Inl x
              | Inr m1 \<Rightarrow> mem_remove src m1))"

definition mem_parent :: "path \<Rightarrow> path" where
  "mem_parent p =
     (let d = rev (drop 1 (dropWhile (\<lambda>c. c \<noteq> CHR ''/'') (rev p)))
      in if d = [] then ''/'' else d)"

text \<open>
  The platform over it. Its paths are absolute and normalised, so \<open>abspath\<close> and
  \<open>str(Path(p))\<close> change nothing; a model index is a row number with its path.
\<close>

definition mem_platform :: "(memfs, nat \<times> path) platform" where
  "mem_platform =
     \<lparr> os_stat = mem_stat, os_abspath = (\<lambda>p. p), pathlib_str = (\<lambda>p. p),
       pathlib_parent = mem_parent,
       shutil_copytree = mem_copytree, shutil_copy2 = mem_copy2, shutil_move = mem_move,
       shutil_rmtree = mem_rmtree, os_remove = mem_remove,
       qt_index_valid = (\<lambda>m p. mem_stat m p \<noteq> None), qt_file_path = snd \<rparr>"

subsection \<open>Example sessions\<close>

definition two_dirs :: memfs where
  \<comment> \<open>\<open>/s\<close> holds \<open>a.txt\<close>, \<open>b.txt\<close> (locked), the directory \<open>v1.2\<close> and the directory \<open>d\<close>
      with \<open>x\<close> and \<open>y\<close> (locked); \<open>/t\<close> holds an older \<open>a.txt\<close> and a directory \<open>v1.2\<close>\<close>
  "two_dirs =
     \<lparr> nodes = [(''/s'', Dir), (''/s/a.txt'', File ''new''), (''/s/b.txt'', File ''bee''),
                (''/s/v1.2'', Dir), (''/s/d'', Dir), (''/s/d/x'', File ''ex''),
                (''/s/d/y'', File ''why''),
                (''/t'', Dir), (''/t/a.txt'', File ''old''), (''/t/v1.2'', Dir)],
       locked = [''/s/b.txt'', ''/s/d/y''] \<rparr>"

definition at_t :: "(memfs, nat \<times> path) session" where
  \<comment> \<open>the window showing \<open>/t\<close>, nothing staged, the system clipboard empty\<close>
  "at_t = initial ''/t'' two_dirs []"

definition cut_ab :: "(memfs, nat \<times> path) session" where
  \<comment> \<open>\<open>/s/a.txt\<close> and \<open>/s/b.txt\<close> staged as a cut\<close>
  "cut_ab = at_t\<lparr>clipboard_paths := [''/s/a.txt'', ''/s/b.txt''], clipboard_is_cut := True\<rparr>"

definition cut_d :: "(memfs, nat \<times> path) session" where
  \<comment> \<open>the directory \<open>/s/d\<close> staged as a cut\<close>
  "cut_d = at_t\<lparr>clipboard_paths := [''/s/d''], clipboard_is_cut := True\<rparr>"

definition copy_v :: "(memfs, nat \<times> path) session" where
  \<comment> \<open>the directory \<open>/s/v1.2\<close> staged as a copy\<close>
  "copy_v = at_t\<lparr>clipboard_paths := [''/s/v1.2'']\<rparr>"

definition copy_a :: "(memfs, nat \<times> path) session" where
  \<comment> \<open>\<open>/s/a.txt\<close> staged as a copy\<close>
  "copy_a = at_t\<lparr>clipboard_paths := [''/s/a.txt'']\<rparr>"

definition copy_then_paste :: "(memfs, nat \<times> path) session" where
  \<comment> \<open>select \<open>/s/a.txt\<close>, copy, let the system clipboard be emptied, paste into \<open>/t\<close>\<close>
  "copy_then_paste =
     handle mem_platform Paste_clicked
       ((handle mem_platform Copy_clicked
           (at_t\<lparr>fs := two_dirs, sys_clipboard := [], selection := [(0, ''/s/a.txt'')]\<rparr>))
        \<lparr>fs := two_dirs, sys_clipboard := [], selection := []\<rparr>)"

section \<open>The selection collector\<close>

lemma selected_paths_loop_first_seen:
  "selected_paths_loop fp sel paths (set paths) =
     paths @ first_seen (filter (\<lambda>q. q \<notin> set paths) (map fp sel))"
proof (induction sel arbitrary: paths)
  case Nil
  show ?case by simp
next
  case (Cons idx rest)
  show ?case
  proof (cases "fp idx \<in> set paths")
    case True
    then show ?thesis using Cons.IH [of paths] by (simp add: Let_def)
  next
    case False
    have "selected_paths_loop fp (idx # rest) paths (set paths) =
            selected_paths_loop fp rest (paths @ [fp idx]) (set (paths @ [fp idx]))"
      using False by (simp add: Let_def)
    also have "\<dots> = (paths @ [fp idx]) @
            first_seen (filter (\<lambda>q. q \<notin> set (paths @ [fp idx])) (map fp rest))"
      by (rule Cons.IH)
    also have "\<dots> = paths @ first_seen (filter (\<lambda>q. q \<notin> set paths) (map fp (idx # rest)))"
      using False by (simp add: conj_commute)
    finally show ?thesis .
  qed
qed

lemma set_first_seen: "set (first_seen xs) = set xs"
proof (induction xs rule: first_seen.induct)
  case 1
  show ?case by simp
next
  case (2 x xs)
  then show ?case by auto
qed

lemma distinct_first_seen: "distinct (first_seen xs)"
proof (induction xs rule: first_seen.induct)
  case 1
  show ?case by simp
next
  case (2 x xs)
  then show ?case by (simp add: set_first_seen)
qed

lemma selected_paths_eq:
  "selected_paths api s = first_seen (map (qt_file_path api) (selection s))"
  using selected_paths_loop_first_seen [of "qt_file_path api" "selection s" "[]"]
  by (simp add: selected_paths_def)

text \<open>
  C10. Whatever the list view's selection, \<open>selected_paths\<close> returns the paths of the
  selected indexes, as the model's \<open>filePath\<close> gives them, deduplicated by string
  equality in first-seen order. It is a total function with no error branch, and an empty
  selection gives the empty list. The paths are not resolved by the collector itself:
  under the contract of \<open>QFileSystemModel.filePath\<close>, that the path it returns for an index
  of the view is absolute, every path returned is absolute.
\<close>

theorem selected_paths_dedup:
  "selected_paths api s = first_seen (map (qt_file_path api) (selection s))
   \<and> distinct (selected_paths api s)
   \<and> set (selected_paths api s) = qt_file_path api ` set (selection s)
   \<and> (selection s = [] \<longrightarrow> selected_paths api s = [])
   \<and> ((\<forall>idx\<in>set (selection s). is_absolute (qt_file_path api idx)) \<longrightarrow>
        (\<forall>p\<in>set (selected_paths api s). is_absolute p))"
  by (simp add: selected_paths_eq distinct_first_seen set_first_seen)

theorem selected_paths_dedup_witness:
  "is_absolute (qt_file_path mem_platform (0, ''/s/a.txt''))
   \<and> is_absolute (qt_file_path mem_platform (1, ''/s/b.txt''))
   \<and> is_absolute (qt_file_path mem_platform (2, ''/s/a.txt''))
   \<and> selected_paths mem_platform (at_t\<lparr>selection := [(0, ''/s/a.txt''), (1, ''/s/b.txt''), (2, ''/s/a.txt'')]\<rparr>)
       = [''/s/a.txt'', ''/s/b.txt'']
   \<and> is_absolute ''/s/a.txt'' \<and> is_absolute ''/s/b.txt''
   \<and> selection at_t = [] \<and> selected_paths mem_platform at_t = []"
  using selected_paths_dedup [of mem_platform at_t]
    selected_paths_dedup [of mem_platform "at_t\<lparr>selection := [(0, ''/s/a.txt''), (1, ''/s/b.txt''), (2, ''/s/a.txt'')]\<rparr>"]
  by (simp add: at_t_def initial_def mem_platform_def is_absolute_def)

section \<open>What a paste may change\<close>

lemma invoke_fs_calls:
  "invoke c prim s = Inr s' \<or> invoke c prim s = Inl (e, s') \<Longrightarrow> fs_calls s' = fs_calls s @ [c]"
  by (auto simp: invoke_def split: sum.splits prod.splits)

lemma paste_system_entry_calls:
  "\<exists>cs. fs_calls (paste_system_entry api dest_dir src s) = fs_calls s @ cs
     \<and> (\<forall>c\<in>set cs. is_copy_call c \<and> call_path c = src)"
  by (auto simp: paste_system_entry_def copy_item_def invoke_def message_box_def Let_def
      split: sum.splits prod.splits)

lemma paste_system_loop_calls:
  "\<exists>cs. fs_calls (paste_system_loop api dest_dir srcs s) = fs_calls s @ cs
     \<and> (\<forall>c\<in>set cs. is_copy_call c \<and> call_path c \<in> set srcs)"
proof (induction srcs arbitrary: s)
  case Nil
  show ?case by simp
next
  case (Cons src rest)
  obtain cs1 where
    e: "fs_calls (paste_system_entry api dest_dir src s) = fs_calls s @ cs1"
    and c1: "\<forall>c\<in>set cs1. is_copy_call c \<and> call_path c = src"
    using paste_system_entry_calls by blast
  obtain cs2 where
    l: "fs_calls (paste_system_loop api dest_dir rest (paste_system_entry api dest_dir src s)) =
          fs_calls (paste_system_entry api dest_dir src s) @ cs2"
    and c2: "\<forall>c\<in>set cs2. is_copy_call c \<and> call_path c \<in> set rest"
    using Cons.IH by blast
  have "fs_calls (paste_system_loop api dest_dir (src # rest) s) = fs_calls s @ (cs1 @ cs2)"
    using e l by simp
  moreover have "\<forall>c\<in>set (cs1 @ cs2). is_copy_call c \<and> call_path c \<in> set (src # rest)"
    using c1 c2 by auto
  ultimately show ?case by blast
qed

text \<open>The system-clipboard branch neither reads nor writes the internal entry.\<close>

lemma invoke_clipboard_indep:
  "invoke c prim (s\<lparr>clipboard_paths := cp, clipboard_is_cut := b\<rparr>) =
     (case invoke c prim s of
        Inl (e, s1) \<Rightarrow> Inl (e, s1\<lparr>clipboard_paths := cp, clipboard_is_cut := b\<rparr>)
      | Inr s1 \<Rightarrow> Inr (s1\<lparr>clipboard_paths := cp, clipboard_is_cut := b\<rparr>))"
  by (simp add: invoke_def split: sum.splits prod.splits)

lemma copy_item_clipboard_indep:
  "copy_item api src dest (s\<lparr>clipboard_paths := cp, clipboard_is_cut := b\<rparr>) =
     (case copy_item api src dest s of
        Inl (e, s1) \<Rightarrow> Inl (e, s1\<lparr>clipboard_paths := cp, clipboard_is_cut := b\<rparr>)
      | Inr s1 \<Rightarrow> Inr (s1\<lparr>clipboard_paths := cp, clipboard_is_cut := b\<rparr>))"
  by (simp add: copy_item_def invoke_clipboard_indep)

lemma resolve_dest_clipboard_indep:
  "resolve_dest api dest_dir base (s\<lparr>clipboard_paths := cp, clipboard_is_cut := b\<rparr>) =
     resolve_dest api dest_dir base s"
  by (simp add: resolve_dest_def)

lemma paste_system_entry_clipboard_indep:
  "paste_system_entry api dest_dir src (s\<lparr>clipboard_paths := cp, clipboard_is_cut := b\<rparr>) =
     (paste_system_entry api dest_dir src s)\<lparr>clipboard_paths := cp, clipboard_is_cut := b\<rparr>"
proof (cases "copy_item api src (resolve_dest api dest_dir (basename src) s) s")
  case (Inl x)
  then show ?thesis
    by (cases x)
      (simp add: paste_system_entry_def copy_item_clipboard_indep resolve_dest_clipboard_indep
        message_box_def Let_def)
next
  case (Inr s1)
  then show ?thesis
    by (simp add: paste_system_entry_def copy_item_clipboard_indep resolve_dest_clipboard_indep
        message_box_def Let_def)
qed

lemma paste_system_loop_clipboard_indep:
  "paste_system_loop api dest_dir srcs (s\<lparr>clipboard_paths := cp, clipboard_is_cut := b\<rparr>) =
     (paste_system_loop api dest_dir srcs s)\<lparr>clipboard_paths := cp, clipboard_is_cut := b\<rparr>"
  by (induction srcs arbitrary: s) (simp_all add: paste_system_entry_clipboard_indep)

lemma paste_system_entry_clipboard:
  "clipboard_paths (paste_system_entry api dest_dir src s) = clipboard_paths s
   \<and> clipboard_is_cut (paste_system_entry api dest_dir src s) = clipboard_is_cut s"
  by (simp add: paste_system_entry_def copy_item_def invoke_def
      message_box_def Let_def split: sum.splits prod.splits)

lemma paste_system_loop_clipboard:
  "clipboard_paths (paste_system_loop api dest_dir srcs s) = clipboard_paths s
   \<and> clipboard_is_cut (paste_system_loop api dest_dir srcs s) = clipboard_is_cut s"
  by (induction srcs arbitrary: s) (simp_all add: paste_system_entry_clipboard)

lemmas mem_eval =
  at_t_def initial_def two_dirs_def mem_platform_def path_exists_def path_isdir_def
  mem_stat_def message_box_def

lemmas paste_eval =
  on_paste_def settle_clipboard_def paste_clipboard_entry_def copy_then_delete_def
  copy_item_def invoke_def resolve_dest_def basename_def join_def splitext_def rfind_def
  mem_copy2_def mem_copytree_def mem_move_def mem_rmtree_def mem_remove_def mem_put_def
  under_def Let_def

section \<open>Paste: the target and the source set\<close>

text \<open>
  C4. When the current path does not exist or is not a directory (\<open>os.stat\<close> fails or
  reports a regular file), \<open>on_paste\<close> only shows the "Invalid Target" warning: the
  filesystem, the log of primitive calls and the internal clipboard entry are as before.
\<close>

theorem paste_invalid_target:
  assumes "os_stat api (fs s) (current_path s) \<noteq> Some Directory"
  shows "on_paste api s = s\<lparr>dialogs := dialogs s @ [Invalid_Target]\<rparr>
       \<and> fs (on_paste api s) = fs s
       \<and> fs_calls (on_paste api s) = fs_calls s
       \<and> clipboard_paths (on_paste api s) = clipboard_paths s
       \<and> clipboard_is_cut (on_paste api s) = clipboard_is_cut s"
  using assms by (simp add: on_paste_def path_isdir_def message_box_def)

theorem paste_invalid_target_witness:
  "os_stat mem_platform (fs (at_t\<lparr>current_path := ''/gone''\<rparr>)) ''/gone'' = None
   \<and> on_paste mem_platform (at_t\<lparr>current_path := ''/gone''\<rparr>) =
       at_t\<lparr>current_path := ''/gone'', dialogs := [Invalid_Target]\<rparr>
   \<and> os_stat mem_platform (fs (at_t\<lparr>current_path := ''/t/a.txt''\<rparr>)) ''/t/a.txt'' = Some RegularFile
   \<and> on_paste mem_platform (at_t\<lparr>current_path := ''/t/a.txt''\<rparr>) =
       at_t\<lparr>current_path := ''/t/a.txt'', dialogs := [Invalid_Target]\<rparr>"
  using paste_invalid_target [of mem_platform "at_t\<lparr>current_path := ''/gone''\<rparr>"]
    paste_invalid_target [of mem_platform "at_t\<lparr>current_path := ''/t/a.txt''\<rparr>"]
  by (simp add: mem_eval)

lemma paste_system_loop_fold:
  "paste_system_loop api dest_dir srcs s =
     fold (\<lambda>src s1.
             if \<not> path_exists api (fs s1) src then s1
             else if os_abspath api src = os_abspath api dest_dir
             then s1\<lparr>dialogs := dialogs s1 @ [Paste_into_itself (basename src)]\<rparr>
             else
               case (if path_isdir api (fs s1) src
                     then shutil_copytree api src (resolve_dest api dest_dir (basename src) s1) (fs s1)
                     else shutil_copy2 api src (resolve_dest api dest_dir (basename src) s1) (fs s1)) of
                 Inr f \<Rightarrow>
                   s1\<lparr>fs := f,
                      fs_calls := fs_calls s1 @
                        [if path_isdir api (fs s1) src
                         then Copytree src (resolve_dest api dest_dir (basename src) s1)
                         else Copy2 src (resolve_dest api dest_dir (basename src) s1)]\<rparr>
               | Inl (e, f) \<Rightarrow>
                   s1\<lparr>fs := f,
                      fs_calls := fs_calls s1 @
                        [if path_isdir api (fs s1) src
                         then Copytree src (resolve_dest api dest_dir (basename src) s1)
                         else Copy2 src (resolve_dest api dest_dir (basename src) s1)],
                      dialogs := dialogs s1 @ [Paste_Error e]\<rparr>)
       srcs s"
proof (induction srcs arbitrary: s)
  case Nil
  show ?case by simp
next
  case (Cons src rest)
  have "paste_system_entry api dest_dir src s =
      (if \<not> path_exists api (fs s) src then s
       else if os_abspath api src = os_abspath api dest_dir
       then s\<lparr>dialogs := dialogs s @ [Paste_into_itself (basename src)]\<rparr>
       else
         case (if path_isdir api (fs s) src
               then shutil_copytree api src (resolve_dest api dest_dir (basename src) s) (fs s)
               else shutil_copy2 api src (resolve_dest api dest_dir (basename src) s) (fs s)) of
           Inr f \<Rightarrow>
             s\<lparr>fs := f,
               fs_calls := fs_calls s @
                 [if path_isdir api (fs s) src
                  then Copytree src (resolve_dest api dest_dir (basename src) s)
                  else Copy2 src (resolve_dest api dest_dir (basename src) s)]\<rparr>
         | Inl (e, f) \<Rightarrow>
             s\<lparr>fs := f,
               fs_calls := fs_calls s @
                 [if path_isdir api (fs s) src
                  then Copytree src (resolve_dest api dest_dir (basename src) s)
                  else Copy2 src (resolve_dest api dest_dir (basename src) s)],
               dialogs := dialogs s @ [Paste_Error e]\<rparr>)"
    by (simp add: paste_system_entry_def copy_item_def invoke_def message_box_def Let_def
        split: sum.splits prod.splits)
  then show ?case using Cons.IH by simp
qed

text \<open>
  C5, as amended. With a valid destination: when the system clipboard holds any URL,
  \<open>on_paste\<close> processes the local files among its URLs one after the other (a missing
  source is skipped, the destination itself is refused, any other is copied with
  \<open>copytree\<close> or \<open>copy2\<close> to the resolved destination, and a copy that raises is reported
  and does not stop the rest), and nothing else: every primitive called is a copy of one
  of them, and the internal entry is neither written nor read (staging any other entry
  beforehand changes nothing else in the outcome). When none of the URLs is a local file,
  this is a paste of nothing that reports zero items. Only when the system clipboard holds
  no URL at all is the internal entry looked at, and if it is empty \<open>on_paste\<close> only shows
  the "Clipboard is empty" notice.
\<close>

theorem system_clipboard_first:
  assumes "path_isdir api (fs s) (current_path s)"
  shows "(sys_clipboard s \<noteq> [] \<longrightarrow>
            on_paste api s =
              (fold (\<lambda>src s1.
                       if \<not> path_exists api (fs s1) src then s1
                       else if os_abspath api src = os_abspath api (current_path s)
                       then s1\<lparr>dialogs := dialogs s1 @ [Paste_into_itself (basename src)]\<rparr>
                       else
                         case (if path_isdir api (fs s1) src
                               then shutil_copytree api src
                                      (resolve_dest api (current_path s) (basename src) s1) (fs s1)
                               else shutil_copy2 api src
                                      (resolve_dest api (current_path s) (basename src) s1) (fs s1)) of
                           Inr f \<Rightarrow>
                             s1\<lparr>fs := f,
                                fs_calls := fs_calls s1 @
                                  [if path_isdir api (fs s1) src
                                   then Copytree src (resolve_dest api (current_path s) (basename src) s1)
                                   else Copy2 src (resolve_dest api (current_path s) (basename src) s1)]\<rparr>
                         | Inl (e, f) \<Rightarrow>
                             s1\<lparr>fs := f,
                                fs_calls := fs_calls s1 @
                                  [if path_isdir api (fs s1) src
                                   then Copytree src (resolve_dest api (current_path s) (basename src) s1)
                                   else Copy2 src (resolve_dest api (current_path s) (basename src) s1)],
                                dialogs := dialogs s1 @ [Paste_Error e]\<rparr>)
                 (local_files (sys_clipboard s)) s)
              \<lparr>status := Pasted_from_system (length (local_files (sys_clipboard s))),
               model_root := current_path s, list_root := current_path s\<rparr>
          \<and> (\<forall>c\<in>set (new_calls s (on_paste api s)).
                 is_copy_call c \<and> call_path c \<in> set (local_files (sys_clipboard s)))
          \<and> clipboard_paths (on_paste api s) = clipboard_paths s
          \<and> clipboard_is_cut (on_paste api s) = clipboard_is_cut s
          \<and> on_paste api (s\<lparr>clipboard_paths := cp, clipboard_is_cut := b\<rparr>) =
              (on_paste api s)\<lparr>clipboard_paths := cp, clipboard_is_cut := b\<rparr>)
       \<and> (sys_clipboard s \<noteq> [] \<and> local_files (sys_clipboard s) = [] \<longrightarrow>
            on_paste api s =
              s\<lparr>status := Pasted_from_system 0,
                model_root := current_path s, list_root := current_path s\<rparr>)
       \<and> (sys_clipboard s = [] \<and> clipboard_paths s = [] \<longrightarrow>
            on_paste api s = s\<lparr>dialogs := dialogs s @ [Clipboard_is_empty]\<rparr>)"
proof -
  let ?ps = "local_files (sys_clipboard s)"
  let ?l = "paste_system_loop api (current_path s) ?ps s"
  have ext: "on_paste api s =
      ?l\<lparr>status := Pasted_from_system (length ?ps),
         model_root := current_path s, list_root := current_path s\<rparr>"
    if "sys_clipboard s \<noteq> []"
    using assms that by (simp add: on_paste_def Let_def)
  have calls: "\<forall>c\<in>set (new_calls s (on_paste api s)). is_copy_call c \<and> call_path c \<in> set ?ps"
    if "sys_clipboard s \<noteq> []"
  proof -
    obtain cs where "fs_calls ?l = fs_calls s @ cs"
      and "\<forall>c\<in>set cs. is_copy_call c \<and> call_path c \<in> set ?ps"
      using paste_system_loop_calls by blast
    then show ?thesis using ext [OF that] by (simp add: new_calls_def)
  qed
  have keep: "clipboard_paths (on_paste api s) = clipboard_paths s
      \<and> clipboard_is_cut (on_paste api s) = clipboard_is_cut s"
    if "sys_clipboard s \<noteq> []"
    using ext [OF that] by (simp add: paste_system_loop_clipboard)
  have indep: "on_paste api (s\<lparr>clipboard_paths := cp, clipboard_is_cut := b\<rparr>) =
      (on_paste api s)\<lparr>clipboard_paths := cp, clipboard_is_cut := b\<rparr>"
    if "sys_clipboard s \<noteq> []"
    using assms that by (simp add: on_paste_def Let_def paste_system_loop_clipboard_indep)
  have none: "on_paste api s =
      s\<lparr>status := Pasted_from_system 0, model_root := current_path s, list_root := current_path s\<rparr>"
    if "sys_clipboard s \<noteq> []" "?ps = []"
    using ext [OF that(1)] that(2) by simp
  have empty: "on_paste api s = s\<lparr>dialogs := dialogs s @ [Clipboard_is_empty]\<rparr>"
    if "sys_clipboard s = []" "clipboard_paths s = []"
    using assms that by (simp add: on_paste_def Let_def message_box_def)
  show ?thesis
    using ext [unfolded paste_system_loop_fold] calls keep indep none empty by blast
qed

theorem system_clipboard_first_witness:
  "path_isdir mem_platform (fs at_t) (current_path at_t)
   \<and> local_files [LocalFile ''/s/a.txt'', OtherUrl ''http://example.org/''] = [''/s/a.txt'']
   \<and> fs_calls (on_paste mem_platform
          (at_t\<lparr>sys_clipboard := [LocalFile ''/s/a.txt'', OtherUrl ''http://example.org/''],
               clipboard_paths := [''/s/b.txt'']\<rparr>))
       = [Copy2 ''/s/a.txt'' ''/t/a_copy.txt'']
   \<and> map_of (nodes (fs (on_paste mem_platform
          (at_t\<lparr>sys_clipboard := [LocalFile ''/s/a.txt'', OtherUrl ''http://example.org/''],
               clipboard_paths := [''/s/b.txt'']\<rparr>)))) ''/t/a_copy.txt''
       = Some (File ''new'')
   \<and> clipboard_paths (on_paste mem_platform
          (at_t\<lparr>sys_clipboard := [LocalFile ''/s/a.txt'', OtherUrl ''http://example.org/''],
               clipboard_paths := [''/s/b.txt'']\<rparr>))
       = [''/s/b.txt'']
   \<and> on_paste mem_platform (at_t\<lparr>sys_clipboard := [OtherUrl ''ftp://host/x'']\<rparr>) =
       at_t\<lparr>sys_clipboard := [OtherUrl ''ftp://host/x''], status := Pasted_from_system 0\<rparr>
   \<and> on_paste mem_platform at_t = at_t\<lparr>dialogs := [Clipboard_is_empty]\<rparr>"
proof -
  let ?s = "at_t\<lparr>sys_clipboard := [LocalFile ''/s/a.txt'', OtherUrl ''http://example.org/'']\<rparr>"
  let ?u = "at_t\<lparr>sys_clipboard := [OtherUrl ''ftp://host/x'']\<rparr>"
  have d: "path_isdir mem_platform (fs at_t) (current_path at_t)" by code_simp
  have ds: "path_isdir mem_platform (fs ?s) (current_path ?s)" by code_simp
  have du: "path_isdir mem_platform (fs ?u) (current_path ?u)" by code_simp
  have lf: "local_files [LocalFile ''/s/a.txt'', OtherUrl ''http://example.org/''] = [''/s/a.txt'']"
    by code_simp
  have ev: "fs_calls (on_paste mem_platform ?s) = [Copy2 ''/s/a.txt'' ''/t/a_copy.txt'']"
    "map_of (nodes (fs (on_paste mem_platform ?s))) ''/t/a_copy.txt'' = Some (File ''new'')"
    by code_simp+
  have st: "clipboard_paths at_t = []" "clipboard_is_cut at_t = False" "dialogs at_t = []"
    "model_root at_t = ''/t''" "list_root at_t = ''/t''" "current_path at_t = ''/t''"
    "sys_clipboard at_t = []"
    by (simp_all add: at_t_def initial_def)
  have ns: "sys_clipboard ?s \<noteq> []" by simp
  have nu: "sys_clipboard ?u \<noteq> [] \<and> local_files (sys_clipboard ?u) = []"
    by (simp add: local_files_def)
  have na: "sys_clipboard at_t = [] \<and> clipboard_paths at_t = []" using st by simp
  have eq: "?s\<lparr>clipboard_paths := [''/s/b.txt''], clipboard_is_cut := False\<rparr> =
      at_t\<lparr>sys_clipboard := [LocalFile ''/s/a.txt'', OtherUrl ''http://example.org/''],
           clipboard_paths := [''/s/b.txt'']\<rparr>"
    by (simp add: at_t_def initial_def)
  have a: "on_paste mem_platform
        (at_t\<lparr>sys_clipboard := [LocalFile ''/s/a.txt'', OtherUrl ''http://example.org/''],
             clipboard_paths := [''/s/b.txt'']\<rparr>) =
      (on_paste mem_platform ?s)\<lparr>clipboard_paths := [''/s/b.txt''], clipboard_is_cut := False\<rparr>"
    using system_clipboard_first [OF ds, where cp = "[''/s/b.txt'']" and b = False,
        THEN conjunct1, THEN mp, OF ns, THEN conjunct2, THEN conjunct2, THEN conjunct2,
        THEN conjunct2]
    unfolding eq .
  have b: "on_paste mem_platform ?u =
      ?u\<lparr>status := Pasted_from_system 0, model_root := current_path ?u, list_root := current_path ?u\<rparr>"
    by (rule system_clipboard_first [OF du, THEN conjunct2, THEN conjunct1, THEN mp, OF nu])
  have c: "on_paste mem_platform at_t = at_t\<lparr>dialogs := dialogs at_t @ [Clipboard_is_empty]\<rparr>"
    by (rule system_clipboard_first [OF d, THEN conjunct2, THEN conjunct2, THEN mp, OF na])
  have b': "on_paste mem_platform ?u = ?u\<lparr>status := Pasted_from_system 0\<rparr>"
    unfolding b by (simp add: at_t_def initial_def)
  have c': "on_paste mem_platform at_t = at_t\<lparr>dialogs := [Clipboard_is_empty]\<rparr>"
    unfolding c using st by simp
  show ?thesis
    unfolding a b' c' using d lf ev by simp
qed

text \<open>
  C5 as stated fails when the system clipboard holds URLs of which none is a local file:
  it holds no file reference and the internal entry is empty, and yet the paste does not
  report an empty clipboard. It takes the system-clipboard branch and reports zero pasted
  items.
\<close>

theorem other_urls_hide_the_empty_clipboard:
  "local_files [OtherUrl ''http://example.org/''] = []
   \<and> clipboard_paths (at_t\<lparr>sys_clipboard := [OtherUrl ''http://example.org/'']\<rparr>) = []
   \<and> dialogs (on_paste mem_platform (at_t\<lparr>sys_clipboard := [OtherUrl ''http://example.org/'']\<rparr>)) = []
   \<and> status (on_paste mem_platform (at_t\<lparr>sys_clipboard := [OtherUrl ''http://example.org/'']\<rparr>))
       = Pasted_from_system 0"
  by code_simp

section \<open>Paste: one entry\<close>

text \<open>
  C3. In the loop over the system clipboard and in the loop over the internal clipboard,
  for cut and for copy alike, an existing source whose absolute path is the destination
  directory's (in particular the destination directory itself) is answered by the warning
  "Cannot paste ... into itself"; the loop goes on with the next entry from a session
  that differs in that warning only, so no primitive was called and the filesystem, the
  count and the failed list are untouched.
\<close>

theorem self_paste_rejected:
  assumes "os_abspath api src = os_abspath api dest_dir"
      and "path_exists api (fs s) src"
  shows "paste_system_loop api dest_dir (src # rest) s =
           paste_system_loop api dest_dir rest
             (s\<lparr>dialogs := dialogs s @ [Paste_into_itself (basename src)]\<rparr>)
       \<and> paste_clipboard_loop api dest_dir is_cut (src # rest) (s, n, failed) =
           paste_clipboard_loop api dest_dir is_cut rest
             (s\<lparr>dialogs := dialogs s @ [Paste_into_itself (basename src)]\<rparr>, n, failed)"
  using assms
  by (simp add: paste_system_entry_def paste_clipboard_entry_def message_box_def Let_def)

theorem self_paste_rejected_witness:
  "os_abspath mem_platform ''/t'' = os_abspath mem_platform ''/t''
   \<and> path_exists mem_platform (fs at_t) ''/t''
   \<and> paste_system_loop mem_platform ''/t'' [''/t''] at_t =
       at_t\<lparr>dialogs := [Paste_into_itself ''t'']\<rparr>
   \<and> paste_clipboard_loop mem_platform ''/t'' True [''/t''] (at_t, 0, []) =
       (at_t\<lparr>dialogs := [Paste_into_itself ''t'']\<rparr>, 0, [])
   \<and> paste_clipboard_loop mem_platform ''/t'' False [''/t''] (at_t, 0, []) =
       (at_t\<lparr>dialogs := [Paste_into_itself ''t'']\<rparr>, 0, [])"
  using self_paste_rejected [of mem_platform "''/t''" "''/t''" at_t "[]" True 0 "[]"]
    self_paste_rejected [of mem_platform "''/t''" "''/t''" at_t "[]" False 0 "[]"]
  by (simp add: mem_eval basename_def)

text \<open>
  C8, as amended. A source that no longer exists is skipped silently by both paste loops:
  the session, the count and the failed list are unchanged. The delete loop has no such
  test: it calls \<open>os.remove\<close> on the vanished path, shows a "Delete error" warning with
  the message when that raises, and goes on with the next path.
\<close>

theorem vanished_source:
  assumes "\<not> path_exists api (fs s) src"
  shows "paste_system_loop api dest_dir (src # rest) s = paste_system_loop api dest_dir rest s
       \<and> paste_clipboard_loop api dest_dir is_cut (src # rest) (s, n, failed) =
           paste_clipboard_loop api dest_dir is_cut rest (s, n, failed)
       \<and> delete_loop api (src # rest) s =
           delete_loop api rest
             (case os_remove api src (fs s) of
                Inr f \<Rightarrow> s\<lparr>fs := f, fs_calls := fs_calls s @ [Remove src]\<rparr>
              | Inl (e, f) \<Rightarrow>
                  s\<lparr>fs := f, fs_calls := fs_calls s @ [Remove src],
                    dialogs := dialogs s @ [Delete_error e]\<rparr>)"
  using assms
  by (simp add: paste_system_entry_def paste_clipboard_entry_def delete_entry_def
      path_exists_def path_isdir_def invoke_def message_box_def split: sum.splits prod.splits)

theorem vanished_source_witness:
  "\<not> path_exists mem_platform (fs at_t) ''/s/gone.txt''
   \<and> paste_system_loop mem_platform ''/t'' [''/s/gone.txt''] at_t = at_t
   \<and> paste_clipboard_loop mem_platform ''/t'' True [''/s/gone.txt''] (at_t, 0, []) = (at_t, 0, [])
   \<and> delete_loop mem_platform [''/s/gone.txt''] at_t =
       at_t\<lparr>fs_calls := [Remove ''/s/gone.txt''],
            dialogs := [Delete_error ''No such file or directory'']\<rparr>"
  using vanished_source [of mem_platform at_t "''/s/gone.txt''" "''/t''" "[]" True 0 "[]"]
  by (simp add: mem_eval mem_remove_def)

text \<open>
  C8 as stated fails for delete: with one existing and one vanished path selected, the
  vanished one surfaces in a "Delete error" warning.
\<close>

theorem delete_of_vanished_path_is_reported:
  "os_stat mem_platform (fs at_t) ''/s/gone.txt'' = None
   \<and> dialogs (on_delete mem_platform True
        (at_t\<lparr>selection := [(0, ''/s/a.txt''), (1, ''/s/gone.txt'')]\<rparr>)) =
       [Delete_question 2, Delete_error ''No such file or directory'']"
  by (simp add: mem_eval on_delete_def selected_paths_def delete_entry_def invoke_def
      mem_remove_def Let_def)

section \<open>Name conflicts\<close>

lemma rfind_ge: "- 1 \<le> rfind c p"
  using length_takeWhile_le [of "\<lambda>x. x \<noteq> c" "rev p"] by (simp add: rfind_def)

lemma splitext_no_dot: "CHR ''.'' \<notin> set p \<Longrightarrow> splitext p = (p, [])"
  using rfind_ge [of "CHR ''/''" p] by (simp add: splitext_def rfind_def Let_def)

lemma splitext_append: "splitext p = (a, b) \<Longrightarrow> a @ b = p"
  by (auto simp: splitext_def Let_def split: if_splits)

lemma resolve_dest_conflict:
  assumes "path_exists api (fs s) (join dest_dir base)" and "splitext base = (base_name, ext)"
  shows "resolve_dest api dest_dir base s = join dest_dir (base_name @ ''_copy'' @ ext)"
  using assms by (simp add: resolve_dest_def)

lemma copy_item_new_calls:
  "copy_item api src d s = Inr s' \<or> copy_item api src d s = Inl (e, s') \<Longrightarrow>
     fs_calls s' = fs_calls s @ [if path_isdir api (fs s) src then Copytree src d else Copy2 src d]"
  by (auto simp: copy_item_def invoke_def split: if_splits sum.splits prod.splits)

lemma copy_then_delete_new_calls:
  "copy_then_delete api src d s = Inr s' \<or> copy_then_delete api src d s = Inl (e, s') \<Longrightarrow>
     \<exists>cs. fs_calls s' = fs_calls s @ cs
       \<and> set cs \<subseteq> {Copytree src d, Copy2 src d, Rmtree src, Remove src}"
  by (auto simp: copy_then_delete_def invoke_def split: if_splits sum.splits prod.splits)

lemma cut_entry_new_calls:
  assumes "path_exists api (fs s) src" and "os_abspath api src \<noteq> os_abspath api dest_dir"
      and "d = resolve_dest api dest_dir (basename src) s"
  shows "\<exists>cs. fs_calls (fst (paste_clipboard_entry api dest_dir True src (s, n, failed))) =
           fs_calls s @ Move src d # cs
       \<and> set cs \<subseteq> {Copytree src d, Copy2 src d, Rmtree src, Remove src}"
proof (cases "invoke (Move src d) (shutil_move api src d) s")
  case (Inr s1)
  then have "fs_calls s1 = fs_calls s @ [Move src d]"
    by (auto simp: invoke_def split: sum.splits prod.splits)
  then show ?thesis
    using assms Inr by (simp add: paste_clipboard_entry_def Let_def)
next
  case (Inl x)
  obtain e1 s1 where x: "x = (e1, s1)" by (cases x)
  have m: "fs_calls s1 = fs_calls s @ [Move src d]"
    using Inl x by (auto simp: invoke_def split: sum.splits prod.splits)
  show ?thesis
  proof (cases "copy_then_delete api src d s1")
    case (Inr s2)
    then obtain cs where "fs_calls s2 = fs_calls s1 @ cs"
      "set cs \<subseteq> {Copytree src d, Copy2 src d, Rmtree src, Remove src}"
      using copy_then_delete_new_calls by blast
    then show ?thesis
      using assms Inl x Inr m by (simp add: paste_clipboard_entry_def Let_def)
  next
    case (Inl y)
    obtain e2 s2 where y: "y = (e2, s2)" by (cases y)
    from Inl y obtain cs where "fs_calls s2 = fs_calls s1 @ cs"
      "set cs \<subseteq> {Copytree src d, Copy2 src d, Rmtree src, Remove src}"
      using copy_then_delete_new_calls by blast
    then show ?thesis
      using assms \<open>invoke (Move src d) (shutil_move api src d) s = Inl x\<close> x Inl y m
      by (simp add: paste_clipboard_entry_def Let_def message_box_def)
  qed
qed

text \<open>
  C6, as amended. When the joined destination of an entry exists, the destination used is
  the directory joined with the name in which \<open>_copy\<close> stands at the point where
  \<open>splitext\<close> splits it, for a directory as for a file (a name with no dot gets the suffix
  at its end). It is computed once: whether that second name exists is not looked at.
  The copy primitive of either loop, and in cut mode the move and the fallback's copy, are
  called with this destination.
\<close>

theorem conflict_renamed_once:
  assumes "path_exists api (fs s) src"
      and "os_abspath api src \<noteq> os_abspath api dest_dir"
      and "path_exists api (fs s) (join dest_dir (basename src))"
      and "splitext (basename src) = (base_name, ext)"
      and "d = join dest_dir (base_name @ ''_copy'' @ ext)"
  shows "new_calls s (paste_system_entry api dest_dir src s) =
           [if path_isdir api (fs s) src then Copytree src d else Copy2 src d]
       \<and> new_calls s (fst (paste_clipboard_entry api dest_dir False src (s, n, failed))) =
           [if path_isdir api (fs s) src then Copytree src d else Copy2 src d]
       \<and> take 1 (new_calls s (fst (paste_clipboard_entry api dest_dir True src (s, n, failed)))) =
           [Move src d]
       \<and> set (new_calls s (fst (paste_clipboard_entry api dest_dir True src (s, n, failed))))
           \<subseteq> {Move src d, Copytree src d, Copy2 src d, Rmtree src, Remove src}
       \<and> base_name @ ext = basename src
       \<and> (CHR ''.'' \<notin> set (basename src) \<longrightarrow> d = join dest_dir (basename src @ ''_copy''))"
proof -
  have d: "resolve_dest api dest_dir (basename src) s = d"
    using assms(3,4,5) by (simp add: resolve_dest_conflict)
  have sys: "new_calls s (paste_system_entry api dest_dir src s) =
           [if path_isdir api (fs s) src then Copytree src d else Copy2 src d]"
  proof (cases "copy_item api src d s")
    case (Inr s1)
    then show ?thesis
      using assms(1,2) d copy_item_new_calls [of api src d s s1]
      by (simp add: paste_system_entry_def new_calls_def Let_def)
  next
    case (Inl x)
    then show ?thesis
      using assms(1,2) d copy_item_new_calls [of api src d s "snd x" "fst x"]
      by (cases x) (simp add: paste_system_entry_def new_calls_def Let_def message_box_def)
  qed
  have cp: "new_calls s (fst (paste_clipboard_entry api dest_dir False src (s, n, failed))) =
           [if path_isdir api (fs s) src then Copytree src d else Copy2 src d]"
  proof (cases "copy_item api src d s")
    case (Inr s1)
    then show ?thesis
      using assms(1,2) d copy_item_new_calls [of api src d s s1]
      by (simp add: paste_clipboard_entry_def new_calls_def Let_def)
  next
    case (Inl x)
    then show ?thesis
      using assms(1,2) d copy_item_new_calls [of api src d s "snd x" "fst x"]
      by (cases x) (simp add: paste_clipboard_entry_def new_calls_def Let_def message_box_def)
  qed
  obtain cs where
    cut: "fs_calls (fst (paste_clipboard_entry api dest_dir True src (s, n, failed))) =
            fs_calls s @ Move src d # cs"
    and cs: "set cs \<subseteq> {Copytree src d, Copy2 src d, Rmtree src, Remove src}"
    using cut_entry_new_calls [OF assms(1,2) d [symmetric]] by blast
  have mv: "take 1 (new_calls s (fst (paste_clipboard_entry api dest_dir True src (s, n, failed)))) =
           [Move src d]"
    using cut by (simp add: new_calls_def)
  have all: "set (new_calls s (fst (paste_clipboard_entry api dest_dir True src (s, n, failed))))
           \<subseteq> {Move src d, Copytree src d, Copy2 src d, Rmtree src, Remove src}"
    using cut cs by (auto simp: new_calls_def)
  have split: "base_name @ ext = basename src"
    using assms(4) by (rule splitext_append)
  have nodot: "d = join dest_dir (basename src @ ''_copy'')" if "CHR ''.'' \<notin> set (basename src)"
    using splitext_no_dot [OF that] assms(4,5) by simp
  show ?thesis
    using sys cp mv all split nodot by blast
qed

lemma copy_a_eval:
  "on_paste mem_platform copy_a =
     copy_a\<lparr>fs := mem_put ''/t/a_copy.txt'' (File ''new'') two_dirs,
            fs_calls := [Copy2 ''/s/a.txt'' ''/t/a_copy.txt''],
            status := Paste_completed 1\<rparr>"
  by (simp add: copy_a_def mem_eval paste_eval)

theorem conflict_renamed_once_witness:
  "path_exists mem_platform (fs copy_a) ''/s/a.txt''
   \<and> os_abspath mem_platform ''/s/a.txt'' \<noteq> os_abspath mem_platform ''/t''
   \<and> path_exists mem_platform (fs copy_a) (join ''/t'' (basename ''/s/a.txt''))
   \<and> splitext (basename ''/s/a.txt'') = (''a'', ''.txt'')
   \<and> new_calls copy_a (fst (paste_clipboard_entry mem_platform ''/t'' False ''/s/a.txt'' (copy_a, 0, [])))
       = [Copy2 ''/s/a.txt'' ''/t/a_copy.txt'']
   \<and> map_of (nodes (fs (on_paste mem_platform copy_a))) ''/t/a_copy.txt'' = Some (File ''new'')
   \<and> map_of (nodes (fs (on_paste mem_platform copy_a))) ''/t/a.txt'' = Some (File ''old'')
   \<and> map_of (nodes (fs copy_a)) ''/t/a.txt'' = Some (File ''old'')"
  using conflict_renamed_once
    [where api = mem_platform and s = copy_a and src = "''/s/a.txt''" and dest_dir = "''/t''"
       and base_name = "''a''" and ext = "''.txt''" and d = "''/t/a_copy.txt''"
       and n = 0 and failed = "[]"]
    copy_a_eval
  by (simp add: copy_a_def mem_eval basename_def join_def splitext_def rfind_def mem_put_def)

text \<open>
  C6 as stated fails for a directory whose name has a dot: the suffix goes before the
  extension, as for a file, and is not appended to the whole name.
\<close>

theorem directory_name_split_at_dot:
  "os_stat mem_platform (fs copy_v) ''/s/v1.2'' = Some Directory
   \<and> os_stat mem_platform (fs copy_v) ''/t/v1.2'' = Some Directory
   \<and> fs_calls (on_paste mem_platform copy_v) = [Copytree ''/s/v1.2'' ''/t/v1_copy.2'']
   \<and> os_stat mem_platform (fs (on_paste mem_platform copy_v)) ''/t/v1_copy.2'' = Some Directory
   \<and> os_stat mem_platform (fs (on_paste mem_platform copy_v)) ''/t/v1.2_copy'' = None"
  by (simp add: copy_v_def mem_eval paste_eval)

section \<open>Delete\<close>

lemma delete_entry_calls:
  "\<exists>c. fs_calls (delete_entry api p s) = fs_calls s @ [c] \<and> call_path c = p \<and> is_delete_call c"
  by (auto simp: delete_entry_def invoke_def message_box_def split: sum.splits prod.splits)

lemma delete_loop_calls:
  "\<exists>cs. fs_calls (delete_loop api ps s) = fs_calls s @ cs \<and> map call_path cs = ps
     \<and> (\<forall>c\<in>set cs. is_delete_call c)"
proof (induction ps arbitrary: s)
  case Nil
  show ?case by simp
next
  case (Cons p rest)
  obtain c where
    e: "fs_calls (delete_entry api p s) = fs_calls s @ [c]" and c: "call_path c = p" "is_delete_call c"
    using delete_entry_calls by blast
  obtain cs where
    l: "fs_calls (delete_loop api rest (delete_entry api p s)) = fs_calls (delete_entry api p s) @ cs"
    and cs: "map call_path cs = rest" "\<forall>c\<in>set cs. is_delete_call c"
    using Cons.IH by blast
  have "fs_calls (delete_loop api (p # rest) s) = fs_calls s @ (c # cs)
      \<and> map call_path (c # cs) = p # rest \<and> (\<forall>x\<in>set (c # cs). is_delete_call x)"
    using e l c cs by simp
  then show ?case by (rule exI [of _ "c # cs"])
qed

lemma delete_loop_fold:
  "delete_loop api ps s =
     fold (\<lambda>p s1.
             case (if path_isdir api (fs s1) p then shutil_rmtree api p (fs s1)
                   else os_remove api p (fs s1)) of
               Inr f \<Rightarrow>
                 s1\<lparr>fs := f,
                    fs_calls := fs_calls s1 @ [if path_isdir api (fs s1) p then Rmtree p else Remove p]\<rparr>
             | Inl (e, f) \<Rightarrow>
                 s1\<lparr>fs := f,
                    fs_calls := fs_calls s1 @ [if path_isdir api (fs s1) p then Rmtree p else Remove p],
                    dialogs := dialogs s1 @ [Delete_error e]\<rparr>)
       ps s"
proof (induction ps arbitrary: s)
  case Nil
  show ?case by simp
next
  case (Cons p rest)
  have "delete_entry api p s =
      (case (if path_isdir api (fs s) p then shutil_rmtree api p (fs s)
             else os_remove api p (fs s)) of
         Inr f \<Rightarrow>
           s\<lparr>fs := f,
             fs_calls := fs_calls s @ [if path_isdir api (fs s) p then Rmtree p else Remove p]\<rparr>
       | Inl (e, f) \<Rightarrow>
           s\<lparr>fs := f,
             fs_calls := fs_calls s @ [if path_isdir api (fs s) p then Rmtree p else Remove p],
             dialogs := dialogs s @ [Delete_error e]\<rparr>)"
    by (simp add: delete_entry_def invoke_def message_box_def split: sum.splits prod.splits)
  then show ?case using Cons.IH by simp
qed

text \<open>
  C9. A confirmed delete of a non-empty selection is, after the question box, one step
  per selected path in order, each on the filesystem the previous step left: \<open>rmtree\<close>
  for a directory and \<open>os.remove\<close> otherwise, and a step that raises adds a "Delete
  error" warning and is followed by the next step all the same. One removal primitive is
  called per selected path, and the status reports the size of the selection, the number
  of attempts.
\<close>

theorem delete_counts_attempts:
  assumes "selected_paths api s \<noteq> []"
  shows "on_delete api True s =
           (fold (\<lambda>p s1.
                    case (if path_isdir api (fs s1) p then shutil_rmtree api p (fs s1)
                          else os_remove api p (fs s1)) of
                      Inr f \<Rightarrow>
                        s1\<lparr>fs := f,
                           fs_calls := fs_calls s1 @
                             [if path_isdir api (fs s1) p then Rmtree p else Remove p]\<rparr>
                    | Inl (e, f) \<Rightarrow>
                        s1\<lparr>fs := f,
                           fs_calls := fs_calls s1 @
                             [if path_isdir api (fs s1) p then Rmtree p else Remove p],
                           dialogs := dialogs s1 @ [Delete_error e]\<rparr>)
              (selected_paths api s)
              (s\<lparr>dialogs := dialogs s @ [Delete_question (length (selected_paths api s))]\<rparr>))
           \<lparr>status := Deleted (length (selected_paths api s))\<rparr>
       \<and> status (on_delete api True s) = Deleted (length (selected_paths api s))
       \<and> map call_path (new_calls s (on_delete api True s)) = selected_paths api s
       \<and> (\<forall>c\<in>set (new_calls s (on_delete api True s)). is_delete_call c)"
proof -
  let ?ps = "selected_paths api s"
  let ?s1 = "message_box (Delete_question (length ?ps)) s"
  have od: "on_delete api True s = (delete_loop api ?ps ?s1)\<lparr>status := Deleted (length ?ps)\<rparr>"
    using assms by (simp add: on_delete_def Let_def)
  obtain cs where
    l: "fs_calls (delete_loop api ?ps ?s1) = fs_calls ?s1 @ cs"
    and cs: "map call_path cs = ?ps" "\<forall>c\<in>set cs. is_delete_call c"
    using delete_loop_calls by blast
  have nc: "new_calls s (on_delete api True s) = cs"
    using od l by (simp add: new_calls_def message_box_def)
  have eq: "on_delete api True s =
           (fold (\<lambda>p s1.
                    case (if path_isdir api (fs s1) p then shutil_rmtree api p (fs s1)
                          else os_remove api p (fs s1)) of
                      Inr f \<Rightarrow>
                        s1\<lparr>fs := f,
                           fs_calls := fs_calls s1 @
                             [if path_isdir api (fs s1) p then Rmtree p else Remove p]\<rparr>
                    | Inl (e, f) \<Rightarrow>
                        s1\<lparr>fs := f,
                           fs_calls := fs_calls s1 @
                             [if path_isdir api (fs s1) p then Rmtree p else Remove p],
                           dialogs := dialogs s1 @ [Delete_error e]\<rparr>)
              ?ps (s\<lparr>dialogs := dialogs s @ [Delete_question (length ?ps)]\<rparr>))
           \<lparr>status := Deleted (length ?ps)\<rparr>"
    unfolding od delete_loop_fold by (simp add: message_box_def)
  have st: "status (on_delete api True s) = Deleted (length ?ps)"
    using od by simp
  from eq st nc cs show ?thesis by simp
qed

theorem delete_counts_attempts_witness:
  "selected_paths mem_platform (at_t\<lparr>selection := [(0, ''/s/a.txt''), (1, ''/s/gone.txt'')]\<rparr>)
     = [''/s/a.txt'', ''/s/gone.txt'']
   \<and> status (on_delete mem_platform True
        (at_t\<lparr>selection := [(0, ''/s/a.txt''), (1, ''/s/gone.txt'')]\<rparr>)) = Deleted 2
   \<and> fs_calls (on_delete mem_platform True
        (at_t\<lparr>selection := [(0, ''/s/a.txt''), (1, ''/s/gone.txt'')]\<rparr>))
       = [Remove ''/s/a.txt'', Remove ''/s/gone.txt'']
   \<and> os_stat mem_platform (fs at_t) ''/s/a.txt'' = Some RegularFile
   \<and> os_stat mem_platform (fs (on_delete mem_platform True
        (at_t\<lparr>selection := [(0, ''/s/a.txt''), (1, ''/s/gone.txt'')]\<rparr>))) ''/s/a.txt'' = None
   \<and> dialogs (on_delete mem_platform True
        (at_t\<lparr>selection := [(0, ''/s/a.txt''), (1, ''/s/gone.txt'')]\<rparr>))
       = [Delete_question 2, Delete_error ''No such file or directory'']"
proof -
  let ?s = "at_t\<lparr>selection := [(0, ''/s/a.txt''), (1, ''/s/gone.txt'')]\<rparr>"
  have sel: "selected_paths mem_platform ?s = [''/s/a.txt'', ''/s/gone.txt'']" by code_simp
  then have ne: "selected_paths mem_platform ?s \<noteq> []" by simp
  have nil: "fs_calls ?s = []" by (simp add: at_t_def initial_def)
  note dc = delete_counts_attempts [OF ne]
  have st: "status (on_delete mem_platform True ?s) = Deleted 2"
    using dc [THEN conjunct2, THEN conjunct1] unfolding sel by simp
  have ev: "fs_calls (on_delete mem_platform True ?s) = [Remove ''/s/a.txt'', Remove ''/s/gone.txt'']"
    "os_stat mem_platform (fs at_t) ''/s/a.txt'' = Some RegularFile"
    "os_stat mem_platform (fs (on_delete mem_platform True ?s)) ''/s/a.txt'' = None"
    "dialogs (on_delete mem_platform True ?s) =
       [Delete_question 2, Delete_error ''No such file or directory'']"
    by code_simp+
  show ?thesis
    using sel st ev by simp
qed

section \<open>The cut flag\<close>

lemma go_to_path_keeps:
  "clipboard_is_cut (go_to_path api p s) = clipboard_is_cut s
   \<and> fs_calls (go_to_path api p s) = fs_calls s"
  by (simp add: go_to_path_def message_box_def Let_def split: option.splits)

lemma navigation_keeps:
  "clipboard_is_cut (on_back api s) = clipboard_is_cut s \<and> fs_calls (on_back api s) = fs_calls s"
  "clipboard_is_cut (on_up api s) = clipboard_is_cut s \<and> fs_calls (on_up api s) = fs_calls s"
  "clipboard_is_cut (on_address_enter api typed s) = clipboard_is_cut s
   \<and> fs_calls (on_address_enter api typed s) = fs_calls s"
  "clipboard_is_cut (on_tree_clicked api idx s) = clipboard_is_cut s
   \<and> fs_calls (on_tree_clicked api idx s) = fs_calls s"
  "clipboard_is_cut (on_item_double_clicked api idx s) = clipboard_is_cut s
   \<and> fs_calls (on_item_double_clicked api idx s) = fs_calls s"
  "clipboard_is_cut (toggle_view s) = clipboard_is_cut s \<and> fs_calls (toggle_view s) = fs_calls s"
  by (simp_all add: on_back_def on_up_def on_address_enter_def on_tree_clicked_def
      on_item_double_clicked_def toggle_view_def go_to_path_keeps Let_def split: option.splits)

lemma on_copy_keeps:
  "(clipboard_is_cut (on_copy api s) \<longrightarrow> clipboard_is_cut s) \<and> fs_calls (on_copy api s) = fs_calls s"
  by (simp add: on_copy_def place_paths_in_system_clipboard_def message_box_def Let_def)

lemma delete_loop_is_cut:
  "clipboard_is_cut (delete_loop api ps s) = clipboard_is_cut s"
  by (induction ps arbitrary: s)
    (simp_all add: delete_entry_def invoke_def message_box_def split: sum.splits prod.splits)

lemma on_delete_keeps:
  "clipboard_is_cut (on_delete api yes s) = clipboard_is_cut s
   \<and> (\<exists>cs. fs_calls (on_delete api yes s) = fs_calls s @ cs \<and> (\<forall>c\<in>set cs. is_delete_call c))"
proof -
  let ?ps = "selected_paths api s"
  let ?s1 = "message_box (Delete_question (length ?ps)) s"
  obtain cs where
    l: "fs_calls (delete_loop api ?ps ?s1) = fs_calls ?s1 @ cs"
    and cs: "\<forall>c\<in>set cs. is_delete_call c"
    using delete_loop_calls by blast
  show ?thesis
  proof (cases "?ps \<noteq> [] \<and> yes")
    case True
    then have "on_delete api yes s = (delete_loop api ?ps ?s1)\<lparr>status := Deleted (length ?ps)\<rparr>"
      by (simp add: on_delete_def Let_def)
    then show ?thesis using l cs by (simp add: delete_loop_is_cut message_box_def)
  next
    case False
    then have "fs_calls (on_delete api yes s) = fs_calls s @ []
        \<and> clipboard_is_cut (on_delete api yes s) = clipboard_is_cut s"
      by (auto simp: on_delete_def Let_def message_box_def)
    then show ?thesis by auto
  qed
qed

lemma paste_clipboard_entry_copy_mode:
  "clipboard_is_cut (fst (paste_clipboard_entry api d False src (s, n, fl))) = clipboard_is_cut s
   \<and> (\<exists>cs. fs_calls (fst (paste_clipboard_entry api d False src (s, n, fl))) = fs_calls s @ cs
         \<and> (\<forall>c\<in>set cs. is_copy_call c \<and> call_path c = src))"
  by (auto simp: paste_clipboard_entry_def copy_item_def invoke_def message_box_def Let_def
      split: sum.splits prod.splits)

lemma paste_clipboard_loop_copy_mode:
  "clipboard_is_cut (fst (paste_clipboard_loop api d False srcs (s, n, fl))) = clipboard_is_cut s
   \<and> (\<exists>cs. fs_calls (fst (paste_clipboard_loop api d False srcs (s, n, fl))) = fs_calls s @ cs
         \<and> (\<forall>c\<in>set cs. is_copy_call c \<and> call_path c \<in> set srcs))"
proof (induction srcs arbitrary: s n fl)
  case Nil
  show ?case by simp
next
  case (Cons src rest)
  obtain s1 n1 fl1 where e: "paste_clipboard_entry api d False src (s, n, fl) = (s1, n1, fl1)"
    by (cases "paste_clipboard_entry api d False src (s, n, fl)")
  from paste_clipboard_entry_copy_mode [of api d src s n fl] e obtain cs1 where
    k1: "clipboard_is_cut s1 = clipboard_is_cut s"
    and c1: "fs_calls s1 = fs_calls s @ cs1" "\<forall>c\<in>set cs1. is_copy_call c \<and> call_path c = src"
    by auto
  from Cons.IH [of s1 n1 fl1] obtain cs2 where
    k2: "clipboard_is_cut (fst (paste_clipboard_loop api d False rest (s1, n1, fl1))) = clipboard_is_cut s1"
    and c2: "fs_calls (fst (paste_clipboard_loop api d False rest (s1, n1, fl1))) = fs_calls s1 @ cs2"
      "\<forall>c\<in>set cs2. is_copy_call c \<and> call_path c \<in> set rest"
    by auto
  have "clipboard_is_cut (fst (paste_clipboard_loop api d False (src # rest) (s, n, fl))) = clipboard_is_cut s
      \<and> fs_calls (fst (paste_clipboard_loop api d False (src # rest) (s, n, fl))) = fs_calls s @ (cs1 @ cs2)
      \<and> (\<forall>c\<in>set (cs1 @ cs2). is_copy_call c \<and> call_path c \<in> set (src # rest))"
    using e k1 k2 c1 c2 by auto
  then show ?case by blast
qed

lemma on_paste_copy_mode:
  assumes "\<not> clipboard_is_cut s"
  shows "\<not> clipboard_is_cut (on_paste api s)
       \<and> (\<exists>cs. fs_calls (on_paste api s) = fs_calls s @ cs \<and> (\<forall>c\<in>set cs. is_copy_call c))"
proof -
  let ?d = "current_path s"
  consider (invalid) "\<not> path_isdir api (fs s) ?d"
    | (system) "path_isdir api (fs s) ?d" "sys_clipboard s \<noteq> []"
    | (empty) "path_isdir api (fs s) ?d" "sys_clipboard s = []" "clipboard_paths s = []"
    | (internal) "path_isdir api (fs s) ?d" "sys_clipboard s = []" "clipboard_paths s \<noteq> []"
    by blast
  then show ?thesis
  proof cases
    case invalid
    then have "on_paste api s = message_box Invalid_Target s" by (simp add: on_paste_def)
    then have "\<not> clipboard_is_cut (on_paste api s) \<and> fs_calls (on_paste api s) = fs_calls s @ []"
      using assms by (simp add: message_box_def)
    then show ?thesis by auto
  next
    case system
    let ?ps = "local_files (sys_clipboard s)"
    obtain cs where "fs_calls (paste_system_loop api ?d ?ps s) = fs_calls s @ cs"
      and "\<forall>c\<in>set cs. is_copy_call c \<and> call_path c \<in> set ?ps"
      using paste_system_loop_calls by blast
    then show ?thesis
      using system assms by (auto simp: on_paste_def Let_def paste_system_loop_clipboard)
  next
    case empty
    then have "on_paste api s = message_box Clipboard_is_empty s" by (simp add: on_paste_def)
    then have "\<not> clipboard_is_cut (on_paste api s) \<and> fs_calls (on_paste api s) = fs_calls s @ []"
      using assms by (simp add: message_box_def)
    then show ?thesis by auto
  next
    case internal
    let ?acc = "paste_clipboard_loop api ?d False (clipboard_paths s) (s, 0, [])"
    obtain s1 n1 fl1 where acc: "?acc = (s1, n1, fl1)" by (cases ?acc)
    from paste_clipboard_loop_copy_mode [of api ?d "clipboard_paths s" s 0 "[]"] acc
    obtain cs where k: "clipboard_is_cut s1 = clipboard_is_cut s"
      and c: "fs_calls s1 = fs_calls s @ cs" "\<forall>c\<in>set cs. is_copy_call c"
      by auto
    have "on_paste api s = s1\<lparr>status := Paste_completed n1, model_root := ?d, list_root := ?d\<rparr>"
      using internal assms acc by (simp add: on_paste_def settle_clipboard_def Let_def)
    then show ?thesis using k c assms by auto
  qed
qed

lemma copy_not_move: "is_copy_call c \<Longrightarrow> \<not> is_move_call c"
  by (cases c) simp_all

lemma delete_not_move: "is_delete_call c \<Longrightarrow> \<not> is_move_call c"
  by (cases c) simp_all

lemma handle_keeps_invariant:
  assumes "\<not> clipboard_is_cut s" and "\<forall>c\<in>set (fs_calls s). \<not> is_move_call c"
  shows "\<not> clipboard_is_cut (handle api ev s) \<and> (\<forall>c\<in>set (fs_calls (handle api ev s)). \<not> is_move_call c)"
proof (cases ev)
  case Paste_clicked
  then show ?thesis
    using on_paste_copy_mode [OF assms(1), of api] assms(2)
    by (auto simp: handle_def dest: copy_not_move)
next
  case (Delete_clicked yes)
  then show ?thesis
    using on_delete_keeps [of api yes s] assms
    by (auto simp: handle_def dest: delete_not_move)
next
  case Copy_clicked
  then show ?thesis using on_copy_keeps [of api s] assms by (auto simp: handle_def)
next
  case (Key_pressed k)
  then show ?thesis
    using on_paste_copy_mode [OF assms(1), of api] on_copy_keeps [of api s] assms
    by (cases k) (auto simp: handle_def keyPressEvent_def dest: copy_not_move)
qed (use assms in \<open>simp_all add: handle_def navigation_keeps\<close>)

text \<open>
  C2. In every reachable session the cut flag is \<open>False\<close>: no handler sets it. So no
  \<open>shutil.move\<close> has ever been called, and a paste from such a session calls copy
  primitives only.
\<close>

theorem cut_flag_never_set:
  assumes "reachable api s"
  shows "\<not> clipboard_is_cut s
       \<and> (\<forall>c\<in>set (fs_calls s). \<not> is_move_call c)
       \<and> (\<forall>c\<in>set (new_calls s (on_paste api s)). is_copy_call c)"
proof -
  have inv: "\<not> clipboard_is_cut s \<and> (\<forall>c\<in>set (fs_calls s). \<not> is_move_call c)"
    using assms
  proof (induction rule: reachable.induct)
    case (start home f cb)
    show ?case by (simp add: initial_def)
  next
    case (event s ev)
    then show ?case using handle_keeps_invariant by blast
  next
    case (world s x y z)
    then show ?case by simp
  qed
  then obtain cs where "fs_calls (on_paste api s) = fs_calls s @ cs" "\<forall>c\<in>set cs. is_copy_call c"
    using on_paste_copy_mode [of s api] by blast
  then have "\<forall>c\<in>set (new_calls s (on_paste api s)). is_copy_call c"
    by (simp add: new_calls_def)
  with inv show ?thesis by blast
qed

lemma copy_then_paste_reachable: "reachable mem_platform copy_then_paste"
  unfolding copy_then_paste_def at_t_def by (intro reachable.intros)

lemma copy_then_paste_eval:
  "fs_calls copy_then_paste = [Copy2 ''/s/a.txt'' ''/t/a_copy.txt'']
   \<and> clipboard_paths copy_then_paste = [''/s/a.txt'']
   \<and> status copy_then_paste = Paste_completed 1"
  by (simp add: copy_then_paste_def handle_def on_copy_def on_paste_def selected_paths_def
      place_paths_in_system_clipboard_def settle_clipboard_def paste_clipboard_entry_def
      copy_item_def invoke_def resolve_dest_def basename_def join_def splitext_def rfind_def
      mem_copy2_def mem_put_def mem_eval Let_def)

theorem cut_flag_never_set_witness:
  "reachable mem_platform copy_then_paste
   \<and> \<not> clipboard_is_cut copy_then_paste
   \<and> fs_calls copy_then_paste = [Copy2 ''/s/a.txt'' ''/t/a_copy.txt'']
   \<and> clipboard_paths copy_then_paste = [''/s/a.txt'']"
  using cut_flag_never_set [OF copy_then_paste_reachable] copy_then_paste_reachable
    copy_then_paste_eval
  by simp

section \<open>Cut: move, fallback, failure\<close>

text \<open>
  C7, as amended. For an existing entry of a cut that is not the destination itself the
  move is called first. If it returns, the entry is counted. If it raises, the fallback
  runs on the filesystem the failed move left: the copy, then the delete of the source.
  If either raises, the entry goes to the failed list with that message, a warning is
  shown, and no further primitive is called for the entry: the filesystem stays as the
  raising call left it. In every case the loop goes on with the remaining entries.
\<close>

theorem cut_entry_move_then_fallback:
  assumes "path_exists api (fs s) src"
      and "os_abspath api src \<noteq> os_abspath api dest_dir"
      and "d = resolve_dest api dest_dir (basename src) s"
      and "sm = s\<lparr>fs := fm, fs_calls := fs_calls s @ [Move src d]\<rparr>"
  shows "(shutil_move api src d (fs s) = Inr fm \<longrightarrow>
            paste_clipboard_loop api dest_dir True (src # rest) (s, n, failed) =
              paste_clipboard_loop api dest_dir True rest (sm, n + 1, failed))
       \<and> (shutil_move api src d (fs s) = Inl (em, fm) \<longrightarrow>
            paste_clipboard_loop api dest_dir True (src # rest) (s, n, failed) =
              paste_clipboard_loop api dest_dir True rest
                (case copy_then_delete api src d sm of
                   Inr s2 \<Rightarrow> (s2, n + 1, failed)
                 | Inl (e2, s2) \<Rightarrow>
                     (s2\<lparr>dialogs := dialogs s2 @ [Cut_Paste_Error (basename src) e2]\<rparr>,
                      n, failed @ [(src, e2)])))
       \<and> copy_then_delete api src d sm =
           (case (if path_isdir api fm src then shutil_copytree api src d fm
                  else shutil_copy2 api src d fm) of
              Inl (e2, f2) \<Rightarrow>
                Inl (e2, sm\<lparr>fs := f2,
                            fs_calls := fs_calls sm @
                              [if path_isdir api fm src then Copytree src d else Copy2 src d]\<rparr>)
            | Inr f2 \<Rightarrow>
                (case (if path_isdir api fm src then shutil_rmtree api src f2
                       else os_remove api src f2) of
                   Inl (e3, f3) \<Rightarrow>
                     Inl (e3, sm\<lparr>fs := f3,
                                 fs_calls := fs_calls sm @
                                   [if path_isdir api fm src then Copytree src d else Copy2 src d,
                                    if path_isdir api fm src then Rmtree src else Remove src]\<rparr>)
                 | Inr f3 \<Rightarrow>
                     Inr (sm\<lparr>fs := f3,
                             fs_calls := fs_calls sm @
                               [if path_isdir api fm src then Copytree src d else Copy2 src d,
                                if path_isdir api fm src then Rmtree src else Remove src]\<rparr>)))"
proof -
  have ok: "paste_clipboard_entry api dest_dir True src (s, n, failed) = (sm, n + 1, failed)"
    if "shutil_move api src d (fs s) = Inr fm"
    using assms that by (simp add: paste_clipboard_entry_def invoke_def Let_def)
  have fb: "paste_clipboard_entry api dest_dir True src (s, n, failed) =
      (case copy_then_delete api src d sm of
         Inr s2 \<Rightarrow> (s2, n + 1, failed)
       | Inl (e2, s2) \<Rightarrow>
           (s2\<lparr>dialogs := dialogs s2 @ [Cut_Paste_Error (basename src) e2]\<rparr>,
            n, failed @ [(src, e2)]))"
    if "shutil_move api src d (fs s) = Inl (em, fm)"
    using assms that
    by (simp add: paste_clipboard_entry_def invoke_def Let_def message_box_def
        split: sum.splits prod.splits)
  have ctd: "copy_then_delete api src d sm =
           (case (if path_isdir api fm src then shutil_copytree api src d fm
                  else shutil_copy2 api src d fm) of
              Inl (e2, f2) \<Rightarrow>
                Inl (e2, sm\<lparr>fs := f2,
                            fs_calls := fs_calls sm @
                              [if path_isdir api fm src then Copytree src d else Copy2 src d]\<rparr>)
            | Inr f2 \<Rightarrow>
                (case (if path_isdir api fm src then shutil_rmtree api src f2
                       else os_remove api src f2) of
                   Inl (e3, f3) \<Rightarrow>
                     Inl (e3, sm\<lparr>fs := f3,
                                 fs_calls := fs_calls sm @
                                   [if path_isdir api fm src then Copytree src d else Copy2 src d,
                                    if path_isdir api fm src then Rmtree src else Remove src]\<rparr>)
                 | Inr f3 \<Rightarrow>
                     Inr (sm\<lparr>fs := f3,
                             fs_calls := fs_calls sm @
                               [if path_isdir api fm src then Copytree src d else Copy2 src d,
                                if path_isdir api fm src then Rmtree src else Remove src]\<rparr>)))"
    using assms(4)
    by (simp add: copy_then_delete_def invoke_def split: sum.splits prod.splits)
  show ?thesis
    using ok fb ctd by simp
qed

theorem cut_entry_move_then_fallback_witness:
  "path_exists mem_platform (fs at_t) ''/s/a.txt''
   \<and> path_exists mem_platform (fs at_t) ''/s/d''
   \<and> (\<exists>fm. shutil_move mem_platform ''/s/a.txt'' ''/t/a_copy.txt'' (fs at_t) = Inr fm)
   \<and> snd (paste_clipboard_loop mem_platform ''/t'' True [''/s/a.txt''] (at_t, 0, [])) = (1, [])
   \<and> fs_calls (fst (paste_clipboard_loop mem_platform ''/t'' True [''/s/a.txt''] (at_t, 0, [])))
       = [Move ''/s/a.txt'' ''/t/a_copy.txt'']
   \<and> (\<exists>fm. shutil_move mem_platform ''/s/d'' ''/t/d'' (fs at_t) = Inl (''Permission denied'', fm))
   \<and> snd (paste_clipboard_loop mem_platform ''/t'' True [''/s/d''] (at_t, 0, []))
       = (0, [(''/s/d'', ''File exists'')])
   \<and> fs_calls (fst (paste_clipboard_loop mem_platform ''/t'' True [''/s/d''] (at_t, 0, [])))
       = [Move ''/s/d'' ''/t/d'', Copytree ''/s/d'' ''/t/d'']
   \<and> dialogs (fst (paste_clipboard_loop mem_platform ''/t'' True [''/s/d''] (at_t, 0, [])))
       = [Cut_Paste_Error ''d'' ''File exists'']"
proof -
  have nil: "fs_calls at_t = []" "dialogs at_t = []"
    by (simp_all add: at_t_def initial_def)
  \<comment> \<open>\<open>/s/a.txt\<close>: the move succeeds\<close>
  have a1: "path_exists mem_platform (fs at_t) ''/s/a.txt''" by code_simp
  have a2: "os_abspath mem_platform ''/s/a.txt'' \<noteq> os_abspath mem_platform ''/t''" by code_simp
  have a3: "''/t/a_copy.txt'' = resolve_dest mem_platform ''/t'' (basename ''/s/a.txt'') at_t"
    by code_simp
  have "\<not> isl (mem_move ''/s/a.txt'' ''/t/a_copy.txt'' two_dirs)" by code_simp
  then obtain fa where "mem_move ''/s/a.txt'' ''/t/a_copy.txt'' two_dirs = Inr fa"
    by (cases "mem_move ''/s/a.txt'' ''/t/a_copy.txt'' two_dirs") auto
  then have am: "shutil_move mem_platform ''/s/a.txt'' ''/t/a_copy.txt'' (fs at_t) = Inr fa"
    by (simp add: mem_platform_def at_t_def initial_def)
  have a: "paste_clipboard_loop mem_platform ''/t'' True [''/s/a.txt''] (at_t, 0, []) =
      (at_t\<lparr>fs := fa, fs_calls := fs_calls at_t @ [Move ''/s/a.txt'' ''/t/a_copy.txt'']\<rparr>, 1, [])"
    using cut_entry_move_then_fallback [OF a1 a2 a3 refl, where rest = "[]" and n = 0 and failed = "[]"]
      am
    by simp
  \<comment> \<open>\<open>/s/d\<close>: the move fails, and so does the copy of the fallback\<close>
  have d1: "path_exists mem_platform (fs at_t) ''/s/d''" by code_simp
  have d2: "os_abspath mem_platform ''/s/d'' \<noteq> os_abspath mem_platform ''/t''" by code_simp
  have d3: "''/t/d'' = resolve_dest mem_platform ''/t'' (basename ''/s/d'') at_t" by code_simp
  define fd where "fd = snd (projl (shutil_move mem_platform ''/s/d'' ''/t/d'' (fs at_t)))"
  have dm: "shutil_move mem_platform ''/s/d'' ''/t/d'' (fs at_t) = Inl (''Permission denied'', fd)"
    unfolding fd_def by code_simp
  define r where "r = copy_then_delete mem_platform ''/s/d'' ''/t/d''
      (at_t\<lparr>fs := fd, fs_calls := fs_calls at_t @ [Move ''/s/d'' ''/t/d'']\<rparr>)"
  have "case r of
          Inl (e, s2) \<Rightarrow>
            e = ''File exists'' \<and> dialogs s2 = [] \<and>
            fs_calls s2 = [Move ''/s/d'' ''/t/d'', Copytree ''/s/d'' ''/t/d'']
        | Inr _ \<Rightarrow> False"
    unfolding r_def fd_def by code_simp
  then obtain s2 where r: "r = Inl (''File exists'', s2)"
    and s2: "dialogs s2 = []"
      "fs_calls s2 = [Move ''/s/d'' ''/t/d'', Copytree ''/s/d'' ''/t/d'']"
    by (auto split: sum.splits prod.splits)
  have bn: "basename ''/s/d'' = ''d''" by code_simp
  have d: "paste_clipboard_loop mem_platform ''/t'' True [''/s/d''] (at_t, 0, []) =
      (s2\<lparr>dialogs := dialogs s2 @ [Cut_Paste_Error ''d'' ''File exists'']\<rparr>,
       0, [(''/s/d'', ''File exists'')])"
    using cut_entry_move_then_fallback [OF d1 d2 d3 refl, where rest = "[]" and n = 0 and failed = "[]"
        and fm = fd and em = "''Permission denied''"]
      dm r [unfolded r_def] bn
    by simp
  show ?thesis
    using a1 d1 am dm a d s2 nil by auto
qed

text \<open>
  C7 as stated fails where it says the source is left untouched. \<open>/s/d/y\<close> cannot be
  unlinked: the move, unable to rename, copies the directory and raises while removing
  the source; the fallback's copy then finds the destination in its way. The entry is
  recorded as failed, and \<open>/s/d/x\<close> is gone from the source.
\<close>

theorem failed_cut_touches_source:
  "os_stat mem_platform (fs cut_d) ''/s/d/x'' = Some RegularFile
   \<and> fs_calls (on_paste mem_platform cut_d) = [Move ''/s/d'' ''/t/d'', Copytree ''/s/d'' ''/t/d'']
   \<and> dialogs (on_paste mem_platform cut_d) = [Cut_Paste_Error ''d'' ''File exists'']
   \<and> status (on_paste mem_platform cut_d) = Paste_partially 0 1
   \<and> os_stat mem_platform (fs (on_paste mem_platform cut_d)) ''/s/d/x'' = None"
  by code_simp

section \<open>The clipboard after a cut\<close>

text \<open>
  C1 at a concrete cut of two files, of which the first is moved and the second fails in
  the move and in the fallback: after the paste the cut flag is still set, and the
  internal entry holds the moved file (which no longer exists) and not the failed one.
\<close>

theorem cut_paste_keeps_moved_drops_failed:
  "clipboard_paths cut_ab = [''/s/a.txt'', ''/s/b.txt'']
   \<and> fs_calls (on_paste mem_platform cut_ab) =
       [Move ''/s/a.txt'' ''/t/a_copy.txt'', Move ''/s/b.txt'' ''/t/b.txt'',
        Copy2 ''/s/b.txt'' ''/t/b.txt'', Remove ''/s/b.txt'']
   \<and> dialogs (on_paste mem_platform cut_ab) = [Cut_Paste_Error ''b.txt'' ''Permission denied'']
   \<and> status (on_paste mem_platform cut_ab) = Paste_partially 1 1
   \<and> os_stat mem_platform (fs (on_paste mem_platform cut_ab)) ''/s/a.txt'' = None
   \<and> os_stat mem_platform (fs (on_paste mem_platform cut_ab)) ''/s/b.txt'' = Some RegularFile
   \<and> clipboard_is_cut (on_paste mem_platform cut_ab)
   \<and> clipboard_paths (on_paste mem_platform cut_ab) = [''/s/a.txt'']"
  by code_simp

text \<open>
  What the lines after the loop leave in the internal entry after a cut, for any platform:
  nothing when no entry failed, and otherwise the staged paths that are not in the failed
  list.
\<close>

lemma cut_paste_clipboard_after:
  assumes "path_isdir api (fs s) (current_path s)" and "sys_clipboard s = []"
      and "clipboard_paths s \<noteq> []" and "clipboard_is_cut s"
      and "paste_clipboard_loop api (current_path s) True (clipboard_paths s) (s, 0, []) =
             (s', n, failed)"
  shows "clipboard_paths (on_paste api s) =
           (if failed = [] then [] else filter (\<lambda>p. p \<notin> fst ` set failed) (clipboard_paths s))"
    and "failed = [] \<Longrightarrow> \<not> clipboard_is_cut (on_paste api s)"
  using assms by (simp_all add: on_paste_def settle_clipboard_def Let_def)

end
